theory Spec2Isabelle
  imports Main "HOL-Library.List_Lexorder" "HOL-Library.AList"
begin

section \<open>The filelist generator of HDVP (scripts/generate\_filelist.py)\<close>

text \<open>
  The script scans a hardware project (\<open>src/\<close>, \<open>tb/\<close>, \<open>include/\<close>) and writes
  \<open>filelist.f\<close>, \<open>compile_options.txt\<close> and \<open>project_metadata.json\<close> into a job
  directory. Everything it does goes through the operating system, so the embedding
  carries an explicit file system: a tree of directories and regular files. The three
  functions of the script (\<open>scan_directory\<close>, \<open>generate_filelist\<close>, \<open>main\<close>) are
  translated line by line on top of it; the functions of Python's library they call are
  modelled below under the names \<open>os_path_exists\<close>, \<open>os_walk\<close>, \<open>os_path_join\<close>,
  \<open>os_path_relpath\<close>, \<open>os_path_getctime\<close>, \<open>os_makedirs\<close> and, for a text file opened
  for writing, \<open>write_text\<close>.
\<close>

subsection \<open>Strings, paths, file contents and the file system\<close>

text \<open>
  A string is a Python \<open>str\<close>: the list of its code points (integers), compared
  lexicographically as Python compares strings. A file name that is not valid UTF-8 reaches the script with
  each offending byte \<open>b\<close> as the lone surrogate \<open>U+DC00 + b\<close> (the \<open>surrogateescape\<close>
  handler of \<open>os.fsdecode\<close>). \<open>ascii\<close> turns a literal of the source into such a string.
\<close>

type_synonym str = "int list"

definition ascii :: "string \<Rightarrow> str" where
  "ascii cs = map of_char cs"

definition newline :: int where
  "newline = 10"

text \<open>
  A string can be written to a text file, which is encoded in UTF-8, unless it holds a
  surrogate: the codec then raises \<open>UnicodeEncodeError\<close>.
\<close>

definition encodable :: "str \<Rightarrow> bool" where
  "encodable s = list_all (\<lambda>c. \<not> (55296 \<le> c \<and> c \<le> 57343)) s"

text \<open>
  A path is kept in resolved form: the list of its components below the root of the
  file system, which is what \<open>os.path.abspath\<close> computes from a path string. A path
  value is therefore never the empty string.
\<close>

type_synonym path = "str list"

text \<open>A time of the file system; the float of the source is kept abstract as a number.\<close>

type_synonym timestamp = nat

text \<open>
  The dictionary that line 91 builds, with the keys of the JSON object as fields (prefixed
  by \<open>md_\<close>, since the function's local variables bear the same names).
  \<open>list(include_dirs)\<close> lists a Python set in no specified order, so the field keeps the
  set of its elements.
\<close>

record metadata =
  md_project_path :: path
  md_job_path :: path
  md_src_files :: "str list"
  md_tb_files :: "str list"
  md_include_files :: "str list"
  md_include_dirs :: "str set"
  md_total_files :: nat
  md_generated_at :: "timestamp option"

text \<open>A regular file holds text, or the object that \<open>json.dump\<close> serialised into it.\<close>

datatype content = Text str | Json metadata

text \<open>
  A regular file carries the time of its creation (\<open>st_birthtime\<close>) and the time of its
  last change (\<open>st_ctime\<close>, which is what \<open>os.path.getctime\<close> reports on POSIX), then its
  content. A directory carries the time of its last change and lists its entries in the
  order in which the operating system enumerates them (\<open>os.scandir\<close>). Symbolic links,
  special files and permissions are not modelled.
\<close>

datatype node = File timestamp timestamp content | Dir timestamp "(str \<times> node) list"

datatype os_error =
    FileNotFoundError | NotADirectoryError | IsADirectoryError | FileExistsError
  | UnicodeEncodeError

text \<open>
  What \<open>print\<close> writes: one value per printed line, the formatted parts kept as data.
  Standard output takes every string (in Python's UTF-8 mode it escapes what the codec
  cannot encode), so that printing does not fail.
\<close>

datatype message =
    Usage string
  | ProjectPathMissing path
  | GeneratedFilelist nat nat
  | IncludeDirectories "str list"
  | SuccessfullyGenerated path
  | ErrorGenerating os_error

text \<open>
  The state the script runs in: the file system, the time that the operating system
  stamps on what is written next, and the lines printed so far. The time moves on with
  every file or directory that is written, so that two of them are told apart by their
  times; between two runs it is whatever the second run is started with.
\<close>

record world =
  fs :: node
  clock :: timestamp
  stdout :: "message list"

fun is_dir :: "node \<Rightarrow> bool" where
  "is_dir (Dir t es) = True"
| "is_dir (File b t c) = False"

fun lookup :: "node \<Rightarrow> path \<Rightarrow> node option" where
  "lookup n [] = Some n"
| "lookup (File b t c) (x # xs) = None"
| "lookup (Dir t es) (x # xs) = (case map_of es x of None \<Rightarrow> None | Some m \<Rightarrow> lookup m xs)"

definition os_path_exists :: "world \<Rightarrow> path \<Rightarrow> bool" where
  "os_path_exists w p = (lookup (fs w) p \<noteq> None)"

definition os_path_isdir :: "world \<Rightarrow> path \<Rightarrow> bool" where
  "os_path_isdir w p = (case lookup (fs w) p of None \<Rightarrow> False | Some n \<Rightarrow> is_dir n)"

definition os_path_getctime :: "world \<Rightarrow> path \<Rightarrow> os_error + timestamp" where
  "os_path_getctime w p =
     (case lookup (fs w) p of
        None \<Rightarrow> Inl FileNotFoundError
      | Some (File b t c) \<Rightarrow> Inr t
      | Some (Dir t es) \<Rightarrow> Inr t)"

text \<open>\<open>os.path.join(a, name)\<close> for a name that is a single component.\<close>

definition os_path_join :: "path \<Rightarrow> str \<Rightarrow> path" where
  "os_path_join a name = a @ [name]"

text \<open>\<open>os.path.join(*parts)\<close> as a string: the parts separated by \<open>/\<close>.\<close>

fun join_parts :: "str list \<Rightarrow> str" where
  "join_parts [] = []"
| "join_parts [x] = x"
| "join_parts (x # y # ys) = x @ ascii ''/'' @ join_parts (y # ys)"

text \<open>The string of an absolute path.\<close>

definition path_str :: "path \<Rightarrow> str" where
  "path_str p = ascii ''/'' @ join_parts p"

fun commonprefix :: "'a list \<Rightarrow> 'a list \<Rightarrow> 'a list" where
  "commonprefix (x # xs) (y # ys) = (if x = y then x # commonprefix xs ys else [])"
| "commonprefix xs ys = []"

text \<open>
  \<open>posixpath.relpath(path, start)\<close>: one \<open>..\<close> for every component of \<open>start\<close> below the
  common prefix, then the rest of \<open>path\<close>; \<open>.\<close> when nothing is left.
\<close>

definition os_path_relpath :: "path \<Rightarrow> path \<Rightarrow> str" where
  "os_path_relpath p start =
     (let i = length (commonprefix start p);
          rel_list = replicate (length start - i) (ascii ''..'') @ drop i p
      in if rel_list = [] then ascii ''.'' else join_parts rel_list)"

text \<open>
  \<open>os.walk(top)\<close>, top-down: for each directory the triple of its path, the names of its
  subdirectories and the names of its other entries, then the walks of its
  subdirectories in listing order. A top that is not a directory yields nothing (the
  error of \<open>scandir\<close> is swallowed).
\<close>

definition dirnames :: "(str \<times> node) list \<Rightarrow> str list" where
  "dirnames es = map fst (filter (\<lambda>(name, m). is_dir m) es)"

definition nondirnames :: "(str \<times> node) list \<Rightarrow> str list" where
  "nondirnames es = map fst (filter (\<lambda>(name, m). \<not> is_dir m) es)"

fun walk_node :: "path \<Rightarrow> node \<Rightarrow> (path \<times> str list \<times> str list) list"
  and walk_entries :: "path \<Rightarrow> (str \<times> node) list \<Rightarrow> (path \<times> str list \<times> str list) list" where
  "walk_node top_dir (File b t c) = []"
| "walk_node top_dir (Dir t es) = (top_dir, dirnames es, nondirnames es) # walk_entries top_dir es"
| "walk_entries top_dir [] = []"
| "walk_entries top_dir ((name, m) # es) = walk_node (os_path_join top_dir name) m @ walk_entries top_dir es"

definition os_walk :: "world \<Rightarrow> path \<Rightarrow> (path \<times> str list \<times> str list) list" where
  "os_walk w top_dir = (case lookup (fs w) top_dir of None \<Rightarrow> [] | Some n \<Rightarrow> walk_node top_dir n)"

text \<open>
  \<open>open(path, 'w')\<close> and what is then written, at the time \<open>t\<close>: the file is created in an
  existing directory, or an existing regular file is replaced. A file that is replaced
  keeps the time of its creation and changes at \<open>t\<close>; a new entry also touches the
  directory that receives it.
\<close>

fun write_node :: "timestamp \<Rightarrow> content \<Rightarrow> node \<Rightarrow> path \<Rightarrow> os_error + node" where
  "write_node t c (File b0 t0 c0) [] = Inr (File b0 t c)"
| "write_node t c (Dir t0 es) [] = Inl IsADirectoryError"
| "write_node t c (File b0 t0 c0) (x # xs) = Inl NotADirectoryError"
| "write_node t c (Dir t0 es) (x # xs) =
     (case map_of es x of
        None \<Rightarrow> (if xs = [] then Inr (Dir t (es @ [(x, File t t c)])) else Inl FileNotFoundError)
      | Some m \<Rightarrow>
          (case write_node t c m xs of
             Inl e \<Rightarrow> Inl e
           | Inr m' \<Rightarrow> Inr (Dir t0 (AList.update x m' es))))"

text \<open>
  A sequence of \<open>f.write(s)\<close> on a text file: each string is encoded and appended; the
  first one that cannot be encoded raises, and the file keeps what was written before
  it. The result is the text written and whether all of it was.
\<close>

fun f_write :: "str list \<Rightarrow> str \<times> bool" where
  "f_write [] = ([], True)"
| "f_write (s # ss) =
     (if encodable s
      then (case f_write ss of (text, complete) \<Rightarrow> (s @ text, complete))
      else ([], False))"

text \<open>
  \<open>with open(path, 'w') as f:\<close> around a sequence of \<open>f.write\<close>. When \<open>open\<close> raises,
  nothing changes; when a write raises, the file is closed with the text written so far.
\<close>

definition write_text :: "world \<Rightarrow> path \<Rightarrow> str list \<Rightarrow> world \<times> (os_error + unit)" where
  "write_text w p chunks =
     (case f_write chunks of
        (text, complete) \<Rightarrow>
          (case write_node (clock w) (Text text) (fs w) p of
             Inl e \<Rightarrow> (w, Inl e)
           | Inr n \<Rightarrow>
               (w\<lparr>fs := n, clock := Suc (clock w)\<rparr>,
                if complete then Inr () else Inl UnicodeEncodeError)))"

text \<open>
  \<open>with open(path, 'w') as f: json.dump(obj, f, indent=2)\<close>. The text of \<open>json.dump\<close> is
  ASCII (\<open>ensure_ascii\<close> is on by default), so that only \<open>open\<close> can raise.
\<close>

definition write_json :: "world \<Rightarrow> path \<Rightarrow> metadata \<Rightarrow> world \<times> (os_error + unit)" where
  "write_json w p obj =
     (case write_node (clock w) (Json obj) (fs w) p of
        Inl e \<Rightarrow> (w, Inl e)
      | Inr n \<Rightarrow> (w\<lparr>fs := n, clock := Suc (clock w)\<rparr>, Inr ()))"

text \<open>\<open>os.mkdir(name)\<close>.\<close>

fun mkdir_node :: "timestamp \<Rightarrow> node \<Rightarrow> path \<Rightarrow> os_error + node" where
  "mkdir_node t n [] = Inl FileExistsError"
| "mkdir_node t (File b0 t0 c0) (x # xs) = Inl NotADirectoryError"
| "mkdir_node t (Dir t0 es) (x # xs) =
     (case map_of es x of
        None \<Rightarrow> (if xs = [] then Inr (Dir t (es @ [(x, Dir t [])])) else Inl FileNotFoundError)
      | Some m \<Rightarrow>
          (case mkdir_node t m xs of
             Inl e \<Rightarrow> Inl e
           | Inr m' \<Rightarrow> Inr (Dir t0 (AList.update x m' es))))"

definition os_mkdir :: "world \<Rightarrow> path \<Rightarrow> os_error + world" where
  "os_mkdir w p =
     (case mkdir_node (clock w) (fs w) p of
        Inl e \<Rightarrow> Inl e
      | Inr n \<Rightarrow> Inr (w\<lparr>fs := n, clock := Suc (clock w)\<rparr>))"

text \<open>
  \<open>os.makedirs(name, exist_ok=True)\<close>: the parent first when it is missing (a
  \<open>FileExistsError\<close> from that call is ignored), then \<open>mkdir\<close>, whose error is raised
  again unless the name is a directory by then.
\<close>

function os_makedirs :: "world \<Rightarrow> path \<Rightarrow> os_error + world" where
  "os_makedirs w name =
     (case (if name \<noteq> [] \<and> \<not> os_path_exists w (butlast name)
            then (case os_makedirs w (butlast name) of
                    Inl e \<Rightarrow> (if e = FileExistsError then Inr w else Inl e)
                  | Inr w' \<Rightarrow> Inr w')
            else Inr w) of
        Inl e \<Rightarrow> Inl e
      | Inr w' \<Rightarrow>
          (case os_mkdir w' name of
             Inl e \<Rightarrow> (if os_path_isdir w' name then Inr w' else Inl e)
           | Inr w'' \<Rightarrow> Inr w''))"
  by pat_completeness auto
termination
  by (relation "measure (\<lambda>(w, name). length name)") auto

subsection \<open>The script\<close>

text \<open>\<open>str.endswith\<close>.\<close>

definition endswith :: "str \<Rightarrow> str \<Rightarrow> bool" where
  "endswith s ext = (length ext \<le> length s \<and> drop (length s - length ext) s = ext)"

text \<open>
  \<open>scan_directory\<close> (lines 12 to 26). The test \<open>if relative_to:\<close> is the test for a
  path being given, a path never being the empty string.
\<close>

definition scan_directory :: "world \<Rightarrow> path \<Rightarrow> str list \<Rightarrow> path option \<Rightarrow> str list" where
  "scan_directory w directory extensions relative_to =
     (if \<not> os_path_exists w directory then []
      else concat (map (\<lambda>(root, dirs, filenames).
             map (\<lambda>filename.
                    (case relative_to of
                       Some start \<Rightarrow> os_path_relpath (os_path_join root filename) start
                     | None \<Rightarrow> path_str (os_path_join root filename)))
                 (filter (\<lambda>filename. list_ex (\<lambda>ext. endswith filename ext) extensions) filenames))
             (os_walk w directory)))"

definition verilog_extensions :: "str list" where
  "verilog_extensions = [ascii ''.v'', ascii ''.sv'']"

definition include_extensions :: "str list" where
  "include_extensions = [ascii ''.vh'', ascii ''.svh'']"

text \<open>
  \<open>generate_filelist\<close> (lines 28 to 109). An exception leaves the function at the
  statement that raises it, with the files written so far in place: the result pairs
  the world it leaves behind with the error or the returned path.
\<close>

definition generate_filelist :: "world \<Rightarrow> path \<Rightarrow> path \<Rightarrow> world \<times> (os_error + path)" where
  "generate_filelist w project_path job_path =
     (let src_dir = os_path_join project_path (ascii ''src'');
          src_files = (if os_path_exists w src_dir
                       then scan_directory w src_dir verilog_extensions (Some job_path) else []);
          src_includes = (if os_path_exists w src_dir
                          then scan_directory w src_dir include_extensions (Some job_path) else []);
          tb_dir = os_path_join project_path (ascii ''tb'');
          tb_files = (if os_path_exists w tb_dir
                      then scan_directory w tb_dir verilog_extensions (Some job_path) else []);
          include_dir = os_path_join project_path (ascii ''include'');
          inc_files = (if os_path_exists w include_dir
                       then scan_directory w include_dir include_extensions (Some job_path) else []);
          include_files = src_includes @ inc_files;
          filelist_path = os_path_join job_path (ascii ''filelist.f'')
      in case write_text w filelist_path
                (map (\<lambda>src_file. src_file @ [newline]) (sort src_files) @
                 map (\<lambda>tb_file. tb_file @ [newline]) (sort tb_files)) of
           (w1, Inl e) \<Rightarrow> (w1, Inl e)
         | (w1, Inr u) \<Rightarrow>
             (let include_dirs =
                    (if os_path_exists w1 src_dir
                     then insert (os_path_relpath src_dir job_path)
                            (set (map (\<lambda>(root, dirs, files). os_path_relpath root job_path)
                               (filter (\<lambda>(root, dirs, files).
                                   list_ex (\<lambda>f. list_ex (\<lambda>ext. endswith f ext) include_extensions) files)
                                 (os_walk w1 src_dir))))
                     else {})
                    \<union> (if os_path_exists w1 include_dir
                       then {os_path_relpath include_dir job_path} else {});
                  compile_opts_path = os_path_join job_path (ascii ''compile_options.txt'')
              in case write_text w1 compile_opts_path
                        (map (\<lambda>inc_dir. ascii ''+incdir+'' @ inc_dir @ [newline])
                           (sorted_list_of_set include_dirs)) of
                   (w2, Inl e) \<Rightarrow> (w2, Inl e)
                 | (w2, Inr u) \<Rightarrow>
                     (case (if os_path_exists w2 filelist_path
                            then map_sum id Some (os_path_getctime w2 filelist_path)
                            else Inr None) of
                        Inl e \<Rightarrow> (w2, Inl e)
                      | Inr generated_at \<Rightarrow>
                          (let metadata = \<lparr>md_project_path = project_path,
                                           md_job_path = job_path,
                                           md_src_files = src_files,
                                           md_tb_files = tb_files,
                                           md_include_files = include_files,
                                           md_include_dirs = include_dirs,
                                           md_total_files = length src_files + length tb_files,
                                           md_generated_at = generated_at\<rparr>;
                               metadata_path = os_path_join job_path (ascii ''project_metadata.json'')
                           in case write_json w2 metadata_path metadata of
                                (w3, Inl e) \<Rightarrow> (w3, Inl e)
                              | (w3, Inr u) \<Rightarrow>
                                  (w3\<lparr>stdout := stdout w3 @
                                       [GeneratedFilelist (length src_files) (length tb_files),
                                        IncludeDirectories (sorted_list_of_set include_dirs)]\<rparr>,
                                   Inr filelist_path)))))"

text \<open>
  \<open>main\<close> (lines 111 to 133) on the argument vector \<open>sys.argv\<close>, whose first element is
  the script itself. The process ends by \<open>sys.exit\<close>, by returning (status 0), or by
  the exception of \<open>os.makedirs\<close>, which no handler catches (the interpreter then
  exits with status 1).
\<close>

datatype outcome = Exit nat | Uncaught os_error

fun exit_status :: "outcome \<Rightarrow> nat" where
  "exit_status (Exit n) = n"
| "exit_status (Uncaught e) = 1"

definition print :: "message list \<Rightarrow> world \<Rightarrow> world" where
  "print ms w = w\<lparr>stdout := stdout w @ ms\<rparr>"

definition main :: "world \<Rightarrow> path list \<Rightarrow> world \<times> outcome" where
  "main w argv =
     (if length argv \<noteq> 3
      then (print [Usage ''Usage: generate_filelist.py <project_path> <job_path>'',
                   Usage ''  project_path: Path to the project directory containing src/, tb/, etc.'',
                   Usage ''  job_path: Path to the job run directory where filelist.f will be created''] w,
            Exit 1)
      else
        (let project_path = argv ! 1;
             job_path = argv ! 2
         in if \<not> os_path_exists w project_path
            then (print [ProjectPathMissing project_path] w, Exit 1)
            else
              (case (if \<not> os_path_exists w job_path then os_makedirs w job_path else Inr w) of
                 Inl e \<Rightarrow> (w, Uncaught e)
               | Inr w' \<Rightarrow>
                   (case generate_filelist w' project_path job_path of
                      (w'', Inl e) \<Rightarrow> (print [ErrorGenerating e] w'', Exit 1)
                    | (w'', Inr filelist_path) \<Rightarrow>
                        (print [SuccessfullyGenerated filelist_path] w'', Exit 0)))))"

subsection \<open>Reading the results back\<close>

definition read_text :: "world \<Rightarrow> path \<Rightarrow> str option" where
  "read_text w p = (case lookup (fs w) p of Some (File b t (Text s)) \<Rightarrow> Some s | _ \<Rightarrow> None)"

definition read_json :: "world \<Rightarrow> path \<Rightarrow> metadata option" where
  "read_json w p = (case lookup (fs w) p of Some (File b t (Json m)) \<Rightarrow> Some m | _ \<Rightarrow> None)"

text \<open>The time at which a regular file was created (\<open>st_birthtime\<close>).\<close>

definition birthtime :: "world \<Rightarrow> path \<Rightarrow> timestamp option" where
  "birthtime w p = (case lookup (fs w) p of Some (File b t c) \<Rightarrow> Some b | _ \<Rightarrow> None)"

definition succeeded :: "world \<times> (os_error + path) \<Rightarrow> bool" where
  "succeeded r = (case snd r of Inl e \<Rightarrow> False | Inr p \<Rightarrow> True)"

text \<open>
  The lines of a text as a reader of the file sees them (Python's iteration over a file,
  each line without the newline that ends it).
\<close>

fun file_lines :: "str \<Rightarrow> str list" where
  "file_lines [] = []"
| "file_lines (c # cs) =
     (if c = newline then [] # file_lines cs
      else (case file_lines cs of [] \<Rightarrow> [[c]] | l # ls \<Rightarrow> (c # l) # ls))"

subsection \<open>Notions for the proofs\<close>

text \<open>
  The values \<open>generate_filelist\<close> computes, each named after the variable that holds
  it, so that a lemma can speak of it; \<open>generate_filelist_steps\<close> shows that the
  function is made of them. The other definitions serve the proofs about the file
  system: the kind of the node at a path, the regular file at a path, the time of birth
  a file written at a path gets, the fact that a write went through, the walk from a
  node, and what a walk shows of the files whose names satisfy a predicate.
\<close>

definition has_ext :: "str list \<Rightarrow> str \<Rightarrow> bool" where
  "has_ext extensions filename = list_ex (\<lambda>ext. endswith filename ext) extensions"

definition matching :: "(str \<Rightarrow> bool) \<Rightarrow> (path \<times> str list \<times> str list) list \<Rightarrow> (path \<times> str list) list" where
  "matching P tr = map (\<lambda>(root, dirs, files). (root, filter P files)) tr"

definition kind :: "node option \<Rightarrow> bool option" where
  "kind r = map_option is_dir r"

definition file_at :: "node \<Rightarrow> path \<Rightarrow> (timestamp \<times> timestamp \<times> content) option" where
  "file_at n p = (case lookup n p of Some (File b t c) \<Rightarrow> Some (b, t, c) | _ \<Rightarrow> None)"

definition born :: "node \<Rightarrow> path \<Rightarrow> timestamp \<Rightarrow> timestamp" where
  "born n p t = (case lookup n p of Some (File b0 t0 c0) \<Rightarrow> b0 | _ \<Rightarrow> t)"

definition stored :: "world \<Rightarrow> path \<Rightarrow> content \<Rightarrow> world \<Rightarrow> bool" where
  "stored w p c w' =
     (\<exists>n. write_node (clock w) c (fs w) p = Inr n \<and> w' = w\<lparr>fs := n, clock := Suc (clock w)\<rparr>)"

definition walk_at :: "node \<Rightarrow> path \<Rightarrow> path \<Rightarrow> (path \<times> str list \<times> str list) list" where
  "walk_at n top_dir q = (case lookup n q of None \<Rightarrow> [] | Some m \<Rightarrow> walk_node top_dir m)"

definition found_src :: "world \<Rightarrow> path \<Rightarrow> path \<Rightarrow> str list" where
  "found_src w project_path job_path =
     scan_directory w (os_path_join project_path (ascii ''src'')) verilog_extensions (Some job_path)"

definition found_tb :: "world \<Rightarrow> path \<Rightarrow> path \<Rightarrow> str list" where
  "found_tb w project_path job_path =
     scan_directory w (os_path_join project_path (ascii ''tb'')) verilog_extensions (Some job_path)"

definition found_includes :: "world \<Rightarrow> path \<Rightarrow> path \<Rightarrow> str list" where
  "found_includes w project_path job_path =
     scan_directory w (os_path_join project_path (ascii ''src'')) include_extensions (Some job_path) @
     scan_directory w (os_path_join project_path (ascii ''include'')) include_extensions (Some job_path)"

definition found_include_dirs :: "world \<Rightarrow> path \<Rightarrow> path \<Rightarrow> str set" where
  "found_include_dirs w project_path job_path =
     (if os_path_exists w (os_path_join project_path (ascii ''src''))
      then insert (os_path_relpath (os_path_join project_path (ascii ''src'')) job_path)
             (set (map (\<lambda>(root, dirs, files). os_path_relpath root job_path)
                (filter (\<lambda>(root, dirs, files).
                    list_ex (\<lambda>f. list_ex (\<lambda>ext. endswith f ext) include_extensions) files)
                  (os_walk w (os_path_join project_path (ascii ''src''))))))
      else {})
     \<union> (if os_path_exists w (os_path_join project_path (ascii ''include''))
        then {os_path_relpath (os_path_join project_path (ascii ''include'')) job_path} else {})"

definition filelist_chunks :: "world \<Rightarrow> path \<Rightarrow> path \<Rightarrow> str list" where
  "filelist_chunks w project_path job_path =
     map (\<lambda>src_file. src_file @ [newline]) (sort (found_src w project_path job_path)) @
     map (\<lambda>tb_file. tb_file @ [newline]) (sort (found_tb w project_path job_path))"

definition compile_options_chunks :: "str set \<Rightarrow> str list" where
  "compile_options_chunks include_dirs =
     map (\<lambda>inc_dir. ascii ''+incdir+'' @ inc_dir @ [newline]) (sorted_list_of_set include_dirs)"

definition metadata_of :: "world \<Rightarrow> path \<Rightarrow> path \<Rightarrow> str set \<Rightarrow> timestamp option \<Rightarrow> metadata" where
  "metadata_of w project_path job_path include_dirs generated_at =
     \<lparr>md_project_path = project_path,
      md_job_path = job_path,
      md_src_files = found_src w project_path job_path,
      md_tb_files = found_tb w project_path job_path,
      md_include_files = found_includes w project_path job_path,
      md_include_dirs = include_dirs,
      md_total_files = length (found_src w project_path job_path) + length (found_tb w project_path job_path),
      md_generated_at = generated_at\<rparr>"

text \<open>A file system in which no directory lists a name twice, as real ones are.\<close>

fun well_formed :: "node \<Rightarrow> bool" where
  "well_formed (File b t c) = True"
| "well_formed (Dir t es) = (distinct (map fst es) \<and> (\<forall>e \<in> set es. well_formed (snd e)))"


subsection \<open>Example projects\<close>

text \<open>
  The project of the specification's first testable property: \<open>src/a.v\<close>, \<open>src/b.sv\<close>,
  \<open>src/pkg.svh\<close>, \<open>tb/top_tb.sv\<close> and \<open>include/defs.vh\<close>, in the directory \<open>/work\<close>,
  which is also the job directory. The directory \<open>src\<close> lists \<open>b.sv\<close> before \<open>a.v\<close>.
\<close>

definition example_fs :: node where
  "example_fs =
     Dir 0 [(ascii ''work'', Dir 0
       [(ascii ''src'', Dir 0 [(ascii ''b.sv'', File 0 0 (Text [])), (ascii ''a.v'', File 0 0 (Text [])),
                               (ascii ''pkg.svh'', File 0 0 (Text []))]),
        (ascii ''tb'', Dir 0 [(ascii ''top_tb.sv'', File 0 0 (Text []))]),
        (ascii ''include'', Dir 0 [(ascii ''defs.vh'', File 0 0 (Text []))])])]"

definition example_world :: world where
  "example_world = \<lparr>fs = example_fs, clock = 100, stdout = []\<rparr>"

text \<open>
  A project with directories below \<open>src\<close>: \<open>src/top.v\<close>, \<open>src/pkg/types.svh\<close>,
  \<open>src/pkg/sub/macros.vh\<close>, \<open>src/rtl/alu.v\<close> and \<open>include/defs.vh\<close>, with the job directory
  \<open>/jobs/j1\<close>. Of the directories at and below \<open>src\<close>, only \<open>pkg\<close> and \<open>pkg/sub\<close> hold an
  include file.
\<close>

definition example_tree_fs :: node where
  "example_tree_fs =
     Dir 0 [(ascii ''work'', Dir 0
              [(ascii ''src'', Dir 0
                 [(ascii ''top.v'', File 0 0 (Text [])),
                  (ascii ''rtl'', Dir 0 [(ascii ''alu.v'', File 0 0 (Text []))]),
                  (ascii ''pkg'', Dir 0
                     [(ascii ''types.svh'', File 0 0 (Text [])),
                      (ascii ''sub'', Dir 0 [(ascii ''macros.vh'', File 0 0 (Text []))])])]),
               (ascii ''include'', Dir 0 [(ascii ''defs.vh'', File 0 0 (Text []))])]),
            (ascii ''jobs'', Dir 0 [(ascii ''j1'', Dir 0 [])])]"

definition example_tree_world :: world where
  "example_tree_world = \<lparr>fs = example_tree_fs, clock = 100, stdout = []\<rparr>"

text \<open>The first project without its \<open>tb\<close> directory, and a separate job directory \<open>/jobs/j1\<close>.\<close>

definition example_no_tb_fs :: node where
  "example_no_tb_fs =
     Dir 0 [(ascii ''work'', Dir 0
              [(ascii ''src'', Dir 0 [(ascii ''b.sv'', File 0 0 (Text [])), (ascii ''a.v'', File 0 0 (Text [])),
                                      (ascii ''pkg.svh'', File 0 0 (Text []))]),
               (ascii ''include'', Dir 0 [(ascii ''defs.vh'', File 0 0 (Text []))])]),
            (ascii ''jobs'', Dir 0 [(ascii ''j1'', Dir 0 [])])]"

definition example_no_tb_world :: world where
  "example_no_tb_world = \<lparr>fs = example_no_tb_fs, clock = 100, stdout = []\<rparr>"



text \<open>
  A project whose only source file has a newline character in its name, which POSIX file
  systems allow: \<open>src/a<newline>.v\<close>.
\<close>

definition example_newline_fs :: node where
  "example_newline_fs =
     Dir 0 [(ascii ''work'', Dir 0
       [(ascii ''src'', Dir 0 [(ascii ''a'' @ [newline] @ ascii ''.v'', File 0 0 (Text []))])])]"

definition example_newline_world :: world where
  "example_newline_world = \<lparr>fs = example_newline_fs, clock = 100, stdout = []\<rparr>"

text \<open>A project whose only source file is named \<open>x.vh<newline>.v\<close>.\<close>

definition example_include_line_fs :: node where
  "example_include_line_fs =
     Dir 0 [(ascii ''work'', Dir 0
       [(ascii ''src'', Dir 0 [(ascii ''x.vh'' @ [newline] @ ascii ''.v'', File 0 0 (Text []))])])]"

definition example_include_line_world :: world where
  "example_include_line_world = \<lparr>fs = example_include_line_fs, clock = 100, stdout = []\<rparr>"

text \<open>A project in which \<open>src\<close> is a regular file.\<close>

definition example_src_file_fs :: node where
  "example_src_file_fs = Dir 0 [(ascii ''work'', Dir 0 [(ascii ''src'', File 0 0 (Text []))])]"

definition example_src_file_world :: world where
  "example_src_file_world = \<lparr>fs = example_src_file_fs, clock = 100, stdout = []\<rparr>"

text \<open>
  A project in which \<open>src\<close> has a subdirectory named \<open>a<newline>+incdir+src\<close> that holds
  \<open>x.vh\<close>.
\<close>

definition example_newline_dir_fs :: node where
  "example_newline_dir_fs =
     Dir 0 [(ascii ''work'', Dir 0
       [(ascii ''src'', Dir 0
          [(ascii ''a'' @ [newline] @ ascii ''+incdir+src'',
            Dir 0 [(ascii ''x.vh'', File 0 0 (Text []))])])])]"

definition example_newline_dir_world :: world where
  "example_newline_dir_world = \<lparr>fs = example_newline_dir_fs, clock = 100, stdout = []\<rparr>"



section \<open>Properties\<close>

subsection \<open>Writing a file and what it leaves unchanged\<close>

lemma map_of_snoc: "map_of (es @ [(x, v)]) y = (if map_of es y = None \<and> y = x then Some v else map_of es y)"
  by (induction es) auto

lemma write_node_kind: "write_node t c n p = Inr n' \<Longrightarrow> is_dir n' = is_dir n"
  by (induction t c n p rule: write_node.induct) (auto split: option.splits if_splits sum.splits)

lemma file_at_Cons:
  "file_at (Dir t0 es) (x # xs) = (case map_of es x of None \<Rightarrow> None | Some m \<Rightarrow> file_at m xs)"
  by (simp add: file_at_def split: option.splits)

lemma born_Cons:
  "born (Dir t0 es) (x # xs) t = (case map_of es x of None \<Rightarrow> t | Some m \<Rightarrow> born m xs t)"
  by (simp add: born_def split: option.splits)

lemma write_node_file_at_same:
  "write_node t c n p = Inr n' \<Longrightarrow> file_at n' p = Some (born n p t, t, c)"
proof (induction t c n p arbitrary: n' rule: write_node.induct)
  case (1 t c b0 t0 c0)
  then show ?case by (auto simp: file_at_def born_def)
next
  case (4 t c t0 es x xs)
  show ?case
  proof (cases "map_of es x")
    case None
    with 4 have "n' = Dir t (es @ [(x, File t t c)])" "xs = []"
      by (auto split: if_splits)
    with None show ?thesis
      by (simp add: file_at_Cons born_Cons map_of_snoc del: map_of_append) (simp add: file_at_def)
  next
    case (Some m)
    with 4 obtain m' where m': "write_node t c m xs = Inr m'" "n' = Dir t0 (AList.update x m' es)"
      by (auto split: sum.splits)
    from 4(1)[OF Some m'(1)] Some show ?thesis
      by (simp add: m'(2) file_at_Cons born_Cons update_conv')
  qed
qed auto

lemma lookup_File: "lookup (File b t c) q = (if q = [] then Some (File b t c) else None)"
  by (cases q) auto

lemma write_node_file_at_other:
  "write_node t c n p = Inr n' \<Longrightarrow> q \<noteq> p \<Longrightarrow> file_at n' q = file_at n q"
proof (induction t c n p arbitrary: n' q rule: write_node.induct)
  case (1 t c b0 t0 c0)
  then show ?case by (cases q) (auto simp: file_at_def)
next
  case (4 t c t0 es x xs)
  show ?case
  proof (cases q)
    case Nil
    with 4 show ?thesis by (auto split: option.splits if_splits sum.splits simp: file_at_def)
  next
    case (Cons y ys)
    show ?thesis
    proof (cases "y = x")
      case False
      with 4 Cons show ?thesis
        by (auto split: option.splits if_splits sum.splits
                 simp: map_of_snoc update_conv' file_at_def simp del: map_of_append)
    next
      case True
      show ?thesis
      proof (cases "map_of es x")
        case None
        with 4 Cons True show ?thesis
          by (auto split: if_splits simp: map_of_snoc file_at_def lookup_File simp del: map_of_append)
      next
        case (Some m)
        with 4 Cons True obtain m' where m': "write_node t c m xs = Inr m'" "n' = Dir t0 (AList.update x m' es)"
          by (auto split: sum.splits)
        from Cons True 4(3) have "ys \<noteq> xs" by auto
        from 4(1)[OF Some m'(1) this] Some m' Cons True show ?thesis
          by (simp add: update_conv' file_at_def)
      qed
    qed
  qed
qed auto

lemma write_node_kind_other:
  "write_node t c n p = Inr n' \<Longrightarrow> q \<noteq> p \<Longrightarrow> kind (lookup n' q) = kind (lookup n q)"
proof (induction t c n p arbitrary: n' q rule: write_node.induct)
  case (1 t c b0 t0 c0)
  then show ?case by (cases q) (auto simp: kind_def)
next
  case (4 t c t0 es x xs)
  show ?case
  proof (cases q)
    case Nil
    with 4 show ?thesis by (auto split: option.splits if_splits sum.splits simp: kind_def)
  next
    case (Cons y ys)
    show ?thesis
    proof (cases "y = x")
      case False
      with 4 Cons show ?thesis
        by (auto split: option.splits if_splits sum.splits
                 simp: map_of_snoc update_conv' kind_def simp del: map_of_append)
    next
      case True
      show ?thesis
      proof (cases "map_of es x")
        case None
        with 4 Cons True show ?thesis
          by (auto split: if_splits simp: map_of_snoc kind_def lookup_File simp del: map_of_append)
      next
        case (Some m)
        with 4 Cons True obtain m' where m': "write_node t c m xs = Inr m'" "n' = Dir t0 (AList.update x m' es)"
          by (auto split: sum.splits)
        from Cons True 4(3) have "ys \<noteq> xs" by auto
        from 4(1)[OF Some m'(1) this] Some m' Cons True show ?thesis
          by (simp add: update_conv')
      qed
    qed
  qed
qed auto

lemma write_node_file_again:
  "lookup n p = Some (File b a c0) \<Longrightarrow> \<exists>n'. write_node t c n p = Inr n'"
  by (induction t c n p rule: write_node.induct) (auto split: option.splits)

lemma write_node_new:
  "kind (lookup n d) = Some True \<Longrightarrow> kind (lookup n (d @ [x])) \<noteq> Some True \<Longrightarrow> \<exists>n'. write_node t c n (d @ [x]) = Inr n'"
proof (induction d arbitrary: n)
  case Nil
  then show ?case
    by (cases n) (auto simp: kind_def split: option.splits intro: write_node_file_again elim: is_dir.elims)
next
  case (Cons y ys)
  then show ?case
    by (cases n) (fastforce simp: kind_def split: option.splits sum.splits)+
qed

lemma write_node_parent:
  "write_node t c n (d @ [x]) = Inr n' \<Longrightarrow>
   kind (lookup n d) = Some True \<and> kind (lookup n (d @ [x])) \<noteq> Some True"
proof (induction d arbitrary: n n')
  case Nil
  then show ?case
    by (cases n) (auto simp: kind_def split: option.splits sum.splits elim!: write_node.elims)
next
  case (Cons y ys)
  then show ?case
    by (cases n) (auto simp: kind_def split: option.splits sum.splits if_splits)
qed

lemma walk_entries_append: "walk_entries top_dir (es @ es') = walk_entries top_dir es @ walk_entries top_dir es'"
  by (induction es) auto

lemma matching_append: "matching P (xs @ ys) = matching P xs @ matching P ys"
  by (simp add: matching_def)

lemma names_update:
  "map_of es x = Some m \<Longrightarrow> is_dir m' = is_dir m \<Longrightarrow>
   dirnames (AList.update x m' es) = dirnames es \<and> nondirnames (AList.update x m' es) = nondirnames es"
  by (induction es) (auto simp: dirnames_def nondirnames_def)

lemma walk_entries_update:
  "map_of es x = Some m \<Longrightarrow> (\<And>d. matching P (walk_node d m') = matching P (walk_node d m)) \<Longrightarrow>
   matching P (walk_entries top_dir (AList.update x m' es)) = matching P (walk_entries top_dir es)"
  by (induction es) (auto simp: matching_append)

lemma write_node_walk:
  "write_node t c n p = Inr n' \<Longrightarrow> p \<noteq> [] \<Longrightarrow> \<not> P (last p) \<Longrightarrow>
   matching P (walk_node top_dir n') = matching P (walk_node top_dir n)"
proof (induction t c n p arbitrary: n' top_dir rule: write_node.induct)
  case (4 t c t0 es x xs)
  show ?case
  proof (cases "map_of es x")
    case None
    with 4 have n': "n' = Dir t (es @ [(x, File t t c)])" "xs = []"
      by (auto split: if_splits)
    with 4(4) have "\<not> P x" by simp
    then show ?thesis
      by (simp add: n' walk_entries_append matching_def dirnames_def nondirnames_def)
  next
    case (Some m)
    with 4 obtain m' where m': "write_node t c m xs = Inr m'" "n' = Dir t0 (AList.update x m' es)"
      by (auto split: sum.splits)
    have k: "is_dir m' = is_dir m" using m'(1) by (rule write_node_kind)
    have sub: "matching P (walk_node d m') = matching P (walk_node d m)" for d
    proof (cases xs)
      case Nil
      with m'(1) show ?thesis by (cases m) auto
    next
      case (Cons y ys)
      with 4(4) have "\<not> P (last xs)" by simp
      with 4(1)[OF Some m'(1)] Cons show ?thesis by simp
    qed
    have "matching P (walk_entries top_dir (AList.update x m' es)) = matching P (walk_entries top_dir es)"
      using Some sub by (rule walk_entries_update)
    with names_update[OF Some k] show ?thesis
      by (simp add: m'(2) matching_def)
  qed
qed auto

lemma walk_at_File: "walk_at (File b t c) top_dir q = []"
  by (cases q) (auto simp: walk_at_def)

lemma write_node_walk_at:
  "write_node t c n p = Inr n' \<Longrightarrow> p \<noteq> [] \<Longrightarrow> \<not> P (last p) \<Longrightarrow>
   matching P (walk_at n' top_dir q) = matching P (walk_at n top_dir q)"
proof (induction t c n p arbitrary: n' q rule: write_node.induct)
  case (4 t c t0 es x xs)
  show ?case
  proof (cases q)
    case Nil
    with write_node_walk[of t c "Dir t0 es" "x # xs" n' P top_dir] 4(2,3,4) show ?thesis by (simp add: walk_at_def)
  next
    case (Cons y ys)
    show ?thesis
    proof (cases "map_of es x")
      case None
      with 4 have n': "n' = Dir t (es @ [(x, File t t c)])" "xs = []"
        by (auto split: if_splits)
      show ?thesis
      proof (cases "y = x")
        case True
        have "walk_at n' top_dir q = walk_at (File t t c) top_dir ys"
          using None by (simp add: walk_at_def n' Cons True map_of_snoc del: map_of_append)
        moreover have "walk_at (Dir t0 es) top_dir q = []"
          using None by (simp add: walk_at_def Cons True)
        ultimately show ?thesis by (simp add: walk_at_File)
      next
        case False
        then show ?thesis by (simp add: walk_at_def n' Cons map_of_snoc del: map_of_append)
      qed
    next
      case (Some m)
      with 4 obtain m' where m': "write_node t c m xs = Inr m'" "n' = Dir t0 (AList.update x m' es)"
        by (auto split: sum.splits)
      show ?thesis
      proof (cases "y = x")
        case False
        then show ?thesis by (simp add: walk_at_def m'(2) Cons update_conv')
      next
        case True
        have l: "walk_at n' top_dir q = walk_at m' top_dir ys" "walk_at (Dir t0 es) top_dir q = walk_at m top_dir ys"
          using Some by (simp_all add: walk_at_def m'(2) Cons True update_conv')
        show ?thesis
        proof (cases xs)
          case Nil
          with m'(1) obtain b a c0 where "m = File b a c0" "m' = File b t c" by (cases m) auto
          then show ?thesis by (simp add: l walk_at_File)
        next
          case (Cons z zs)
          with 4(4) have "\<not> P (last xs)" by simp
          with 4(1)[OF Some m'(1)] Cons show ?thesis by (simp add: l)
        qed
      qed
    qed
  qed
qed auto

lemma scan_directory_guard:
  "(if os_path_exists w d then scan_directory w d exts rel else []) = scan_directory w d exts rel"
  by (simp add: scan_directory_def)

lemma generate_filelist_steps:
  "generate_filelist w pp jp =
     (case write_text w (os_path_join jp (ascii ''filelist.f'')) (filelist_chunks w pp jp) of
        (w1, Inl e) \<Rightarrow> (w1, Inl e)
      | (w1, Inr u) \<Rightarrow>
          (case write_text w1 (os_path_join jp (ascii ''compile_options.txt''))
                  (compile_options_chunks (found_include_dirs w1 pp jp)) of
             (w2, Inl e) \<Rightarrow> (w2, Inl e)
           | (w2, Inr u) \<Rightarrow>
               (case (if os_path_exists w2 (os_path_join jp (ascii ''filelist.f''))
                      then map_sum id Some (os_path_getctime w2 (os_path_join jp (ascii ''filelist.f'')))
                      else Inr None) of
                  Inl e \<Rightarrow> (w2, Inl e)
                | Inr generated_at \<Rightarrow>
                    (case write_json w2 (os_path_join jp (ascii ''project_metadata.json''))
                            (metadata_of w pp jp (found_include_dirs w1 pp jp) generated_at) of
                       (w3, Inl e) \<Rightarrow> (w3, Inl e)
                     | (w3, Inr u) \<Rightarrow>
                         (w3\<lparr>stdout := stdout w3 @
                              [GeneratedFilelist (length (found_src w pp jp)) (length (found_tb w pp jp)),
                               IncludeDirectories (sorted_list_of_set (found_include_dirs w1 pp jp))]\<rparr>,
                          Inr (os_path_join jp (ascii ''filelist.f'')))))))"
  unfolding generate_filelist_def Let_def scan_directory_guard
    filelist_chunks_def compile_options_chunks_def metadata_of_def found_src_def found_tb_def
    found_includes_def found_include_dirs_def
  by (rule refl)

lemma f_write_complete: "list_all encodable ss \<Longrightarrow> f_write ss = (concat ss, True)"
  by (induction ss) auto

lemma f_write_incomplete: "\<not> list_all encodable ss \<Longrightarrow> snd (f_write ss) = False"
  by (induction ss) (auto split: prod.splits)

lemma write_text_ok:
  "write_text w p chunks = (w', Inr u) \<longleftrightarrow> stored w p (Text (concat chunks)) w' \<and> list_all encodable chunks"
proof (cases "list_all encodable chunks")
  case True
  then show ?thesis
    by (auto simp: write_text_def stored_def f_write_complete split: sum.splits)
next
  case False
  with f_write_incomplete[OF False] show ?thesis
    by (auto simp: write_text_def split: sum.splits prod.splits)
qed

lemma write_json_ok:
  "write_json w p obj = (w', Inr u) \<longleftrightarrow> stored w p (Json obj) w'"
  by (auto simp: write_json_def stored_def split: sum.splits)

lemma os_walk_walk_at: "os_walk w d = walk_at (fs w) d d"
  by (simp add: os_walk_def walk_at_def)

lemma concat_matching:
  "concat (map (\<lambda>(root, dirs, filenames). map (g root) (filter P filenames)) tr) =
   concat (map (\<lambda>(root, files). map (g root) files) (matching P tr))"
  by (induction tr) (auto simp: matching_def)

lemma scan_directory_matching:
  "scan_directory w d exts rel =
     concat (map (\<lambda>(root, files).
        map (\<lambda>filename. case rel of
                 Some start \<Rightarrow> os_path_relpath (os_path_join root filename) start
               | None \<Rightarrow> path_str (os_path_join root filename)) files)
       (matching (has_ext exts) (os_walk w d)))"
proof -
  have P: "(\<lambda>filename. list_ex (\<lambda>ext. endswith filename ext) exts) = has_ext exts"
    by (simp add: has_ext_def fun_eq_iff)
  show ?thesis
  proof (cases "os_path_exists w d")
    case True
    then show ?thesis
      unfolding scan_directory_def P
      using concat_matching[of "\<lambda>root filename. case rel of
                 Some start \<Rightarrow> os_path_relpath (os_path_join root filename) start
               | None \<Rightarrow> path_str (os_path_join root filename)" "has_ext exts" "os_walk w d"]
      by simp
  next
    case False
    then have "os_walk w d = []" by (simp add: os_path_exists_def os_walk_def)
    with False show ?thesis by (simp add: scan_directory_def matching_def)
  qed
qed

lemma stored_fs:
  "stored w p c w' \<Longrightarrow> \<exists>n. write_node (clock w) c (fs w) p = Inr n \<and> fs w' = n"
  by (auto simp: stored_def)

lemma stored_clock: "stored w p c w' \<Longrightarrow> clock w' = Suc (clock w)"
  by (auto simp: stored_def)

lemma stored_walk:
  assumes "stored w p c w'" "p \<noteq> []" "\<not> P (last p)"
  shows "matching P (os_walk w' d) = matching P (os_walk w d)"
proof -
  from assms(1) obtain n where n: "write_node (clock w) c (fs w) p = Inr n" "fs w' = n"
    by (auto dest: stored_fs)
  from write_node_walk_at[OF n(1) assms(2), of P d d] assms(3) show ?thesis
    by (simp add: os_walk_walk_at n(2))
qed

lemma stored_scan:
  assumes "stored w p c w'" "p \<noteq> []" "\<not> has_ext exts (last p)"
  shows "scan_directory w' d exts rel = scan_directory w d exts rel"
  using stored_walk[OF assms(1,2), of "has_ext exts" d] assms(3)
  by (simp add: scan_directory_matching)

lemma kind_None: "kind r = None \<longleftrightarrow> r = None"
  by (simp add: kind_def)

lemma stored_kind:
  assumes "stored w p c w'" "q \<noteq> p"
  shows "kind (lookup (fs w') q) = kind (lookup (fs w) q)"
proof -
  from assms(1) obtain n where n: "write_node (clock w) c (fs w) p = Inr n" "fs w' = n"
    by (auto dest: stored_fs)
  from write_node_kind_other[OF n(1) assms(2)] show ?thesis
    by (simp add: n(2))
qed

lemma stored_exists:
  assumes "stored w p c w'" "q \<noteq> p"
  shows "os_path_exists w' q = os_path_exists w q"
  using stored_kind[OF assms] by (metis kind_None os_path_exists_def)

lemma os_path_isdir_kind: "os_path_isdir w p \<longleftrightarrow> kind (lookup (fs w) p) = Some True"
  by (auto simp: os_path_isdir_def kind_def split: option.splits)

lemma stored_isdir:
  assumes "stored w p c w'" "q \<noteq> p"
  shows "os_path_isdir w' q = os_path_isdir w q"
  using stored_kind[OF assms] by (simp add: os_path_isdir_kind)

lemma stored_file_at_same:
  "stored w p c w' \<Longrightarrow> file_at (fs w') p = Some (born (fs w) p (clock w), clock w, c)"
  by (auto dest!: stored_fs write_node_file_at_same)

lemma stored_file_at_other:
  "stored w p c w' \<Longrightarrow> q \<noteq> p \<Longrightarrow> file_at (fs w') q = file_at (fs w) q"
  by (auto dest!: stored_fs intro: write_node_file_at_other)

lemma stored_born_other:
  "stored w p c w' \<Longrightarrow> q \<noteq> p \<Longrightarrow> born (fs w') q t = born (fs w) q t"
  using stored_file_at_other[of w p c w' q]
  by (auto simp: born_def file_at_def split: option.splits node.splits)

lemma stored_new:
  assumes "os_path_isdir w d" "\<not> os_path_isdir w (os_path_join d x)"
  shows "\<exists>w'. stored w (os_path_join d x) c w'"
  using write_node_new[of "fs w" d x "clock w" c] assms
  by (auto simp: os_path_isdir_kind stored_def os_path_join_def)

lemma stored_parent:
  "stored w (os_path_join d x) c w' \<Longrightarrow> os_path_isdir w d \<and> \<not> os_path_isdir w (os_path_join d x)"
  by (auto simp: os_path_isdir_kind os_path_join_def dest!: stored_fs write_node_parent)

lemma dirs_matching:
  "map (\<lambda>(root, dirs, files). g root) (filter (\<lambda>(root, dirs, files). list_ex Q files) tr) =
   map (\<lambda>(root, files). g root) (filter (\<lambda>(root, files). files \<noteq> []) (matching Q tr))"
  by (induction tr) (auto simp: matching_def list_ex_iff filter_empty_conv)

lemma stored_found_include_dirs:
  assumes "stored w p c w'" "p \<noteq> []" "\<not> has_ext include_extensions (last p)"
    and "os_path_join pp (ascii ''src'') \<noteq> p" "os_path_join pp (ascii ''include'') \<noteq> p"
  shows "found_include_dirs w' pp jp = found_include_dirs w pp jp"
proof -
  note m = stored_walk[OF assms(1,2), of "has_ext include_extensions", OF assms(3)]
  have Q: "(\<lambda>f. list_ex (\<lambda>ext. endswith f ext) include_extensions) = has_ext include_extensions"
    by (simp add: has_ext_def fun_eq_iff)
  show ?thesis
    unfolding found_include_dirs_def Q dirs_matching m
      stored_exists[OF assms(1,4)] stored_exists[OF assms(1,5)]
    by (rule refl)
qed

lemma output_names:
  "\<not> has_ext verilog_extensions (ascii ''filelist.f'')"
  "\<not> has_ext include_extensions (ascii ''filelist.f'')"
  "\<not> has_ext verilog_extensions (ascii ''compile_options.txt'')"
  "\<not> has_ext include_extensions (ascii ''compile_options.txt'')"
  "\<not> has_ext verilog_extensions (ascii ''project_metadata.json'')"
  "\<not> has_ext include_extensions (ascii ''project_metadata.json'')"
  by (simp_all add: has_ext_def endswith_def verilog_extensions_def include_extensions_def ascii_def)

lemma output_paths:
  "os_path_join jp (ascii ''filelist.f'') \<noteq> []"
  "os_path_join jp (ascii ''compile_options.txt'') \<noteq> []"
  "os_path_join jp (ascii ''project_metadata.json'') \<noteq> []"
  "last (os_path_join jp (ascii ''filelist.f'')) = ascii ''filelist.f''"
  "last (os_path_join jp (ascii ''compile_options.txt'')) = ascii ''compile_options.txt''"
  "last (os_path_join jp (ascii ''project_metadata.json'')) = ascii ''project_metadata.json''"
  "os_path_join jp (ascii ''compile_options.txt'') \<noteq> os_path_join jp (ascii ''filelist.f'')"
  "os_path_join jp (ascii ''project_metadata.json'') \<noteq> os_path_join jp (ascii ''filelist.f'')"
  "os_path_join jp (ascii ''project_metadata.json'') \<noteq> os_path_join jp (ascii ''compile_options.txt'')"
  "os_path_join pp (ascii ''src'') \<noteq> os_path_join jp (ascii ''filelist.f'')"
  "os_path_join pp (ascii ''src'') \<noteq> os_path_join jp (ascii ''compile_options.txt'')"
  "os_path_join pp (ascii ''src'') \<noteq> os_path_join jp (ascii ''project_metadata.json'')"
  "os_path_join pp (ascii ''include'') \<noteq> os_path_join jp (ascii ''filelist.f'')"
  "os_path_join pp (ascii ''include'') \<noteq> os_path_join jp (ascii ''compile_options.txt'')"
  "os_path_join pp (ascii ''include'') \<noteq> os_path_join jp (ascii ''project_metadata.json'')"
  "jp \<noteq> os_path_join jp (ascii ''filelist.f'')"
  "jp \<noteq> os_path_join jp (ascii ''compile_options.txt'')"
  "jp \<noteq> os_path_join jp (ascii ''project_metadata.json'')"
  by (simp_all add: os_path_join_def ascii_def)

subsection \<open>A run that succeeds\<close>

lemma generate_filelist_succeeded:
  assumes "succeeded (generate_filelist w pp jp)"
  shows "\<exists>w1 w2 w3.
     stored w (os_path_join jp (ascii ''filelist.f'')) (Text (concat (filelist_chunks w pp jp))) w1 \<and>
     stored w1 (os_path_join jp (ascii ''compile_options.txt''))
        (Text (concat (compile_options_chunks (found_include_dirs w pp jp)))) w2 \<and>
     stored w2 (os_path_join jp (ascii ''project_metadata.json''))
        (Json (metadata_of w pp jp (found_include_dirs w pp jp) (Some (clock w)))) w3 \<and>
     list_all encodable (filelist_chunks w pp jp) \<and>
     list_all encodable (compile_options_chunks (found_include_dirs w pp jp)) \<and>
     generate_filelist w pp jp =
       (w3\<lparr>stdout := stdout w3 @
            [GeneratedFilelist (length (found_src w pp jp)) (length (found_tb w pp jp)),
             IncludeDirectories (sorted_list_of_set (found_include_dirs w pp jp))]\<rparr>,
        Inr (os_path_join jp (ascii ''filelist.f'')))"
proof -
  let ?fl = "os_path_join jp (ascii ''filelist.f'')"
  let ?co = "os_path_join jp (ascii ''compile_options.txt'')"
  let ?md = "os_path_join jp (ascii ''project_metadata.json'')"
  from assms obtain w1 where "write_text w ?fl (filelist_chunks w pp jp) = (w1, Inr ())"
    by (auto simp: succeeded_def generate_filelist_steps split: sum.splits prod.splits)
  then have w1: "stored w ?fl (Text (concat (filelist_chunks w pp jp))) w1"
    and e1: "list_all encodable (filelist_chunks w pp jp)"
    and t1: "write_text w ?fl (filelist_chunks w pp jp) = (w1, Inr ())"
    by (simp_all add: write_text_ok)
  have d1: "found_include_dirs w1 pp jp = found_include_dirs w pp jp"
    using w1 by (rule stored_found_include_dirs) (simp_all add: output_paths output_names)
  from assms t1 obtain w2 where
    t2: "write_text w1 ?co (compile_options_chunks (found_include_dirs w pp jp)) = (w2, Inr ())"
    by (auto simp: succeeded_def generate_filelist_steps d1 split: sum.splits prod.splits)
  then have w2: "stored w1 ?co (Text (concat (compile_options_chunks (found_include_dirs w pp jp)))) w2"
    and e2: "list_all encodable (compile_options_chunks (found_include_dirs w pp jp))"
    by (simp_all add: write_text_ok)
  have "file_at (fs w2) ?fl = file_at (fs w1) ?fl"
    using w2 by (rule stored_file_at_other) (simp add: output_paths(7)[symmetric])
  with stored_file_at_same[OF w1]
  have l2: "file_at (fs w2) ?fl = Some (born (fs w) ?fl (clock w), clock w, Text (concat (filelist_chunks w pp jp)))"
    by simp
  then have g: "os_path_exists w2 ?fl" "os_path_getctime w2 ?fl = Inr (clock w)"
    by (auto simp: os_path_exists_def os_path_getctime_def file_at_def split: option.splits node.splits)
  from assms t1 t2 obtain w3 where
    t3: "write_json w2 ?md (metadata_of w pp jp (found_include_dirs w pp jp) (Some (clock w))) = (w3, Inr ())"
    by (auto simp: succeeded_def generate_filelist_steps d1 g split: sum.splits prod.splits)
  then have w3: "stored w2 ?md (Json (metadata_of w pp jp (found_include_dirs w pp jp) (Some (clock w)))) w3"
    by (simp add: write_json_ok)
  show ?thesis
    using w1 w2 w3 e1 e2 t1 t2 t3 by (auto simp: generate_filelist_steps d1 g)
qed

lemma generate_filelist_succeeds:
  assumes "os_path_isdir w jp"
    and "\<not> os_path_isdir w (os_path_join jp (ascii ''filelist.f''))"
    and "\<not> os_path_isdir w (os_path_join jp (ascii ''compile_options.txt''))"
    and "\<not> os_path_isdir w (os_path_join jp (ascii ''project_metadata.json''))"
    and "list_all encodable (filelist_chunks w pp jp)"
    and "list_all encodable (compile_options_chunks (found_include_dirs w pp jp))"
  shows "succeeded (generate_filelist w pp jp)"
proof -
  let ?fl = "os_path_join jp (ascii ''filelist.f'')"
  let ?co = "os_path_join jp (ascii ''compile_options.txt'')"
  let ?md = "os_path_join jp (ascii ''project_metadata.json'')"
  from stored_new[OF assms(1,2)] obtain w1 where
    w1: "stored w ?fl (Text (concat (filelist_chunks w pp jp))) w1" by blast
  with assms(5) have t1: "write_text w ?fl (filelist_chunks w pp jp) = (w1, Inr ())"
    by (simp add: write_text_ok)
  have d1: "found_include_dirs w1 pp jp = found_include_dirs w pp jp"
    using w1 by (rule stored_found_include_dirs) (simp_all add: output_paths output_names)
  have "os_path_isdir w1 jp" "\<not> os_path_isdir w1 ?co"
    using assms(1,3) stored_isdir[OF w1] by (simp_all add: output_paths)
  from stored_new[OF this] obtain w2 where
    w2: "stored w1 ?co (Text (concat (compile_options_chunks (found_include_dirs w pp jp)))) w2" by blast
  with assms(6) have t2: "write_text w1 ?co (compile_options_chunks (found_include_dirs w pp jp)) = (w2, Inr ())"
    by (simp add: write_text_ok)
  have "file_at (fs w2) ?fl = file_at (fs w1) ?fl"
    using w2 by (rule stored_file_at_other) (simp add: output_paths(7)[symmetric])
  with stored_file_at_same[OF w1]
  have "file_at (fs w2) ?fl = Some (born (fs w) ?fl (clock w), clock w, Text (concat (filelist_chunks w pp jp)))"
    by simp
  then have g: "os_path_exists w2 ?fl" "os_path_getctime w2 ?fl = Inr (clock w)"
    by (auto simp: os_path_exists_def os_path_getctime_def file_at_def split: option.splits node.splits)
  have "os_path_isdir w2 jp" "\<not> os_path_isdir w2 ?md"
    using assms(1,4) stored_isdir[OF w1] stored_isdir[OF w2] by (simp_all add: output_paths)
  from stored_new[OF this] obtain w3 where
    w3: "stored w2 ?md (Json (metadata_of w pp jp (found_include_dirs w pp jp) (Some (clock w)))) w3"
    by blast
  then have t3: "write_json w2 ?md (metadata_of w pp jp (found_include_dirs w pp jp) (Some (clock w))) = (w3, Inr ())"
    by (simp add: write_json_ok)
  show ?thesis
    by (simp add: succeeded_def generate_filelist_steps t1 d1 t2 g t3)
qed

lemma file_at_reads:
  assumes "file_at (fs w) p = Some (b, t, c)"
  shows "os_path_getctime w p = Inr t" "birthtime w p = Some b"
    "os_path_exists w p" "\<not> os_path_isdir w p"
    "read_text w p = (case c of Text s \<Rightarrow> Some s | Json obj \<Rightarrow> None)"
    "read_json w p = (case c of Text s \<Rightarrow> None | Json obj \<Rightarrow> Some obj)"
  using assms
  by (auto simp: file_at_def os_path_getctime_def birthtime_def os_path_exists_def os_path_isdir_def
        read_text_def read_json_def split: option.splits node.splits content.splits)

lemma generate_filelist_files:
  assumes "succeeded (generate_filelist w pp jp)"
  shows "file_at (fs (fst (generate_filelist w pp jp))) (os_path_join jp (ascii ''filelist.f'')) =
           Some (born (fs w) (os_path_join jp (ascii ''filelist.f'')) (clock w), clock w,
                 Text (concat (filelist_chunks w pp jp)))"
    and "file_at (fs (fst (generate_filelist w pp jp))) (os_path_join jp (ascii ''compile_options.txt'')) =
           Some (born (fs w) (os_path_join jp (ascii ''compile_options.txt'')) (Suc (clock w)), Suc (clock w),
                 Text (concat (compile_options_chunks (found_include_dirs w pp jp))))"
    and "file_at (fs (fst (generate_filelist w pp jp))) (os_path_join jp (ascii ''project_metadata.json'')) =
           Some (born (fs w) (os_path_join jp (ascii ''project_metadata.json'')) (Suc (Suc (clock w))),
                 Suc (Suc (clock w)),
                 Json (metadata_of w pp jp (found_include_dirs w pp jp) (Some (clock w))))"
proof -
  let ?fl = "os_path_join jp (ascii ''filelist.f'')"
  let ?co = "os_path_join jp (ascii ''compile_options.txt'')"
  let ?md = "os_path_join jp (ascii ''project_metadata.json'')"
  from generate_filelist_succeeded[OF assms] obtain w1 w2 w3 where
    w1: "stored w ?fl (Text (concat (filelist_chunks w pp jp))) w1" and
    w2: "stored w1 ?co (Text (concat (compile_options_chunks (found_include_dirs w pp jp)))) w2" and
    w3: "stored w2 ?md (Json (metadata_of w pp jp (found_include_dirs w pp jp) (Some (clock w)))) w3" and
    r: "fs (fst (generate_filelist w pp jp)) = fs w3"
    by auto
  have c: "clock w1 = Suc (clock w)" "clock w2 = Suc (Suc (clock w))"
    using w1 w2 by (simp_all add: stored_clock)
  have "file_at (fs w3) ?fl = file_at (fs w2) ?fl"
    using w3 by (rule stored_file_at_other) (simp add: output_paths(8)[symmetric])
  also have "\<dots> = file_at (fs w1) ?fl"
    using w2 by (rule stored_file_at_other) (simp add: output_paths(7)[symmetric])
  finally show "file_at (fs (fst (generate_filelist w pp jp))) ?fl =
           Some (born (fs w) ?fl (clock w), clock w, Text (concat (filelist_chunks w pp jp)))"
    using stored_file_at_same[OF w1] by (simp add: r)
  have "file_at (fs w3) ?co = file_at (fs w2) ?co"
    using w3 by (rule stored_file_at_other) (simp add: output_paths(9)[symmetric])
  moreover have "born (fs w1) ?co (Suc (clock w)) = born (fs w) ?co (Suc (clock w))"
    using w1 by (rule stored_born_other) (simp add: output_paths)
  ultimately show "file_at (fs (fst (generate_filelist w pp jp))) ?co =
           Some (born (fs w) ?co (Suc (clock w)), Suc (clock w),
                 Text (concat (compile_options_chunks (found_include_dirs w pp jp))))"
    using stored_file_at_same[OF w2] by (simp add: r c)
  have "born (fs w2) ?md (Suc (Suc (clock w))) = born (fs w1) ?md (Suc (Suc (clock w)))"
    using w2 by (rule stored_born_other) (simp add: output_paths)
  moreover have "born (fs w1) ?md (Suc (Suc (clock w))) = born (fs w) ?md (Suc (Suc (clock w)))"
    using w1 by (rule stored_born_other) (simp add: output_paths)
  ultimately show "file_at (fs (fst (generate_filelist w pp jp))) ?md =
           Some (born (fs w) ?md (Suc (Suc (clock w))), Suc (Suc (clock w)),
                 Json (metadata_of w pp jp (found_include_dirs w pp jp) (Some (clock w))))"
    using stored_file_at_same[OF w3] by (simp add: r c)
qed

lemma concat_filelist_chunks:
  "concat (filelist_chunks w pp jp) =
     concat (map (\<lambda>entry. entry @ [newline]) (sort (found_src w pp jp) @ sort (found_tb w pp jp)))"
  by (simp add: filelist_chunks_def)

subsection \<open>What can be encoded\<close>

lemma encodable_append [simp]: "encodable (a @ b) \<longleftrightarrow> encodable a \<and> encodable b"
  by (simp add: encodable_def)

lemma encodable_literals [simp]:
  "encodable [newline]" "encodable (ascii ''+incdir+'')" "encodable (ascii ''/'')"
  "encodable (ascii ''..'')" "encodable (ascii ''.'')" "encodable []"
  by (simp_all add: encodable_def newline_def ascii_def)




lemma finite_found_include_dirs: "finite (found_include_dirs w pp jp)"
  by (simp add: found_include_dirs_def)








subsection \<open>Suffixes of the entries\<close>

lemma join_parts_last:
  "xs \<noteq> [] \<Longrightarrow> last xs \<noteq> [] \<Longrightarrow> join_parts xs \<noteq> [] \<and> last (join_parts xs) = last (last xs)"
  by (induction xs rule: join_parts.induct) (auto simp: ascii_def)

lemma relpath_last:
  assumes "f \<noteq> []"
  shows "last (os_path_relpath (os_path_join root f) start) \<in> {last f, 46}"
proof -
  define i where "i = length (commonprefix start (root @ [f]))"
  define rel_list where "rel_list = replicate (length start - i) (ascii ''..'') @ drop i (root @ [f])"
  have r: "os_path_relpath (os_path_join root f) start =
             (if rel_list = [] then ascii ''.'' else join_parts rel_list)"
    by (simp add: os_path_relpath_def os_path_join_def Let_def i_def rel_list_def)
  show ?thesis
  proof (cases "rel_list = []")
    case True
    then show ?thesis
      by (simp add: r ascii_def)
  next
    case False
    have "last rel_list = f \<or> last rel_list = ascii ''..''"
      using False by (auto simp: rel_list_def last_append)
    then have l: "last rel_list \<noteq> [] \<and> last (last rel_list) \<in> {last f, 46}"
      using assms by (auto simp: ascii_def)
    with join_parts_last[OF False] have "last (join_parts rel_list) \<in> {last f, 46}"
      by simp
    with False show ?thesis
      by (simp add: r)
  qed
qed

lemma endswith_last: "endswith s ext \<Longrightarrow> ext \<noteq> [] \<Longrightarrow> s \<noteq> [] \<and> last s = last ext"
  by (auto simp: endswith_def) (metis last_drop drop_eq_Nil not_le)

lemma scan_directory_entry:
  "e \<in> set (scan_directory w d exts (Some start)) \<Longrightarrow>
   \<exists>root f. has_ext exts f \<and> e = os_path_relpath (os_path_join root f) start"
  by (auto simp: scan_directory_def has_ext_def split: if_splits)

lemma verilog_entry_not_include:
  assumes "e \<in> set (scan_directory w d verilog_extensions (Some start))"
  shows "\<not> endswith e (ascii ''.vh'') \<and> \<not> endswith e (ascii ''.svh'')"
proof -
  from scan_directory_entry[OF assms] obtain root f where
    f: "has_ext verilog_extensions f" "e = os_path_relpath (os_path_join root f) start"
    by auto
  from f(1) have "f \<noteq> [] \<and> last f = 118"
    by (auto simp: has_ext_def verilog_extensions_def ascii_def dest!: endswith_last)
  with relpath_last[of f root start] f(2) have "last e \<in> {118, 46}"
    by auto
  then show ?thesis
    by (auto simp: ascii_def dest!: endswith_last)
qed

subsection \<open>The lines of a text\<close>

lemma file_lines_line:
  "newline \<notin> set e \<Longrightarrow> file_lines (e @ newline # rest) = e # file_lines rest"
  by (induction e) auto

lemma file_lines_chunks:
  "list_all (\<lambda>e. newline \<notin> set e) xs \<Longrightarrow>
   file_lines (concat (map (\<lambda>e. e @ [newline]) xs)) = xs"
  by (induction xs) (auto simp: file_lines_line)

lemma prefix_le: "(p @ x \<le> p @ y) = (x \<le> (y :: int list))"
  by (induction p) auto

lemma sorted_prefix: "sorted (map ((@) p) xs) = sorted (xs :: int list list)"
  by (induction xs) (auto simp: prefix_le)

subsection \<open>What a walk visits and a scan finds\<close>

text \<open>
  On a file system in which no directory lists a name twice, \<open>os_walk\<close> visits exactly
  the directories at and below its starting point, and \<open>scan_directory\<close> returns exactly
  the regular files at any depth below the directory whose names end with one of the
  extensions, each relative to the given start.
\<close>

lemma lookup_append:
  "lookup n (d @ q) = (case lookup n d of None \<Rightarrow> None | Some m \<Rightarrow> lookup m q)"
  by (induction n d rule: lookup.induct) (auto split: option.splits)

lemma well_formed_lookup: "well_formed n \<Longrightarrow> lookup n q = Some m \<Longrightarrow> well_formed m"
proof (induction n q rule: lookup.induct)
  case (3 t es x xs)
  then show ?case
    by (auto split: option.splits dest!: map_of_SomeD)
qed auto

lemma walk_visits:
  "well_formed n \<Longrightarrow>
     set (walk_node top_dir n) =
       {(top_dir @ q, dirnames es, nondirnames es) | q t es. lookup n q = Some (Dir t es)}"
  "distinct (map fst es) \<Longrightarrow> (\<forall>e \<in> set es. well_formed (snd e)) \<Longrightarrow>
     set (walk_entries top_dir es) =
       {(top_dir @ x # q, dirnames es', nondirnames es') | x q t es' m.
          map_of es x = Some m \<and> lookup m q = Some (Dir t es')}"
proof (induction top_dir n and top_dir es rule: walk_node_walk_entries.induct)
  case (1 top_dir b t c)
  show ?case
    by (simp add: lookup_File)
next
  case (2 top_dir t es)
  then have IH: "set (walk_entries top_dir es) =
       {(top_dir @ x # q, dirnames es', nondirnames es') | x q t es' m.
          map_of es x = Some m \<and> lookup m q = Some (Dir t es')}"
    by simp
  show ?case
  proof (rule set_eqI, rule iffI)
    fix r assume "r \<in> set (walk_node top_dir (Dir t es))"
    then consider "r = (top_dir, dirnames es, nondirnames es)" | "r \<in> set (walk_entries top_dir es)"
      by auto
    then show "r \<in> {(top_dir @ q, dirnames es', nondirnames es') | q t' es'. lookup (Dir t es) q = Some (Dir t' es')}"
    proof cases
      case 1
      then show ?thesis by (auto intro!: exI[of _ "[]"])
    next
      case 2
      with IH obtain x q t' es' m where "r = (top_dir @ x # q, dirnames es', nondirnames es')"
        "map_of es x = Some m" "lookup m q = Some (Dir t' es')" by auto
      then show ?thesis by (auto intro!: exI[of _ "x # q"])
    qed
  next
    fix r assume "r \<in> {(top_dir @ q, dirnames es', nondirnames es') | q t' es'. lookup (Dir t es) q = Some (Dir t' es')}"
    then obtain q t' es' where r: "r = (top_dir @ q, dirnames es', nondirnames es')"
      "lookup (Dir t es) q = Some (Dir t' es')" by auto
    show "r \<in> set (walk_node top_dir (Dir t es))"
    proof (cases q)
      case Nil
      with r show ?thesis by simp
    next
      case (Cons x xs)
      with r obtain m where "map_of es x = Some m" "lookup m xs = Some (Dir t' es')"
        by (auto split: option.splits)
      with r Cons IH show ?thesis by auto
    qed
  qed
next
  case (3 top_dir)
  then show ?case by simp
next
  case (4 top_dir name m es)
  then have wf: "well_formed m" "distinct (map fst es)" "\<forall>e \<in> set es. well_formed (snd e)"
    and fresh: "name \<notin> fst ` set es"
    by auto
  have nm: "map_of es name = None"
    using fresh by (simp add: map_of_eq_None_iff)
  have A: "set (walk_node (os_path_join top_dir name) m) =
       {(top_dir @ name # q, dirnames es', nondirnames es') | q t es'. lookup m q = Some (Dir t es')}"
    using 4(1)[OF wf(1)] by (simp add: os_path_join_def)
  note B = 4(2)[OF wf(2,3)]
  show ?case
  proof (rule set_eqI, rule iffI)
    fix r assume "r \<in> set (walk_entries top_dir ((name, m) # es))"
    then consider (a) "r \<in> set (walk_node (os_path_join top_dir name) m)"
      | (b) "r \<in> set (walk_entries top_dir es)"
      by auto
    then show "r \<in> {(top_dir @ x # q, dirnames es', nondirnames es') | x q t es' m'.
          map_of ((name, m) # es) x = Some m' \<and> lookup m' q = Some (Dir t es')}"
    proof cases
      case a
      with A obtain q t es' where "r = (top_dir @ name # q, dirnames es', nondirnames es')"
        "lookup m q = Some (Dir t es')" by auto
      then show ?thesis by (auto intro!: exI[of _ name])
    next
      case b
      with B obtain x q t es' m' where r: "r = (top_dir @ x # q, dirnames es', nondirnames es')"
        "map_of es x = Some m'" "lookup m' q = Some (Dir t es')" by auto
      with nm have "x \<noteq> name" by auto
      with r show ?thesis by (auto intro!: exI[of _ x])
    qed
  next
    fix r assume "r \<in> {(top_dir @ x # q, dirnames es', nondirnames es') | x q t es' m'.
          map_of ((name, m) # es) x = Some m' \<and> lookup m' q = Some (Dir t es')}"
    then obtain x q t es' m' where r: "r = (top_dir @ x # q, dirnames es', nondirnames es')"
      "map_of ((name, m) # es) x = Some m'" "lookup m' q = Some (Dir t es')" by auto
    show "r \<in> set (walk_entries top_dir ((name, m) # es))"
    proof (cases "x = name")
      case True
      with r have "r \<in> set (walk_node (os_path_join top_dir name) m)"
        unfolding A by auto
      then show ?thesis by simp
    next
      case False
      with r have "r \<in> set (walk_entries top_dir es)"
        unfolding B by auto
      then show ?thesis by simp
    qed
  qed
qed

lemma os_walk_visits:
  assumes "well_formed (fs w)"
  shows "set (os_walk w d) =
           {(d @ q, dirnames es, nondirnames es) | q t es. lookup (fs w) (d @ q) = Some (Dir t es)}"
proof (cases "lookup (fs w) d")
  case None
  then show ?thesis by (simp add: os_walk_def lookup_append)
next
  case (Some n)
  with assms have "well_formed n" by (auto intro: well_formed_lookup)
  from walk_visits(1)[OF this, of d] Some show ?thesis
    by (simp add: os_walk_def lookup_append)
qed

lemma nondirnames_file:
  "distinct (map fst es) \<Longrightarrow> f \<in> set (nondirnames es) \<longleftrightarrow> (\<exists>b t c. map_of es f = Some (File b t c))"
proof (induction es)
  case Nil
  then show ?case by (simp add: nondirnames_def)
next
  case (Cons e es)
  obtain name m where e: "e = (name, m)" by (cases e)
  with Cons.prems have "name \<notin> set (nondirnames es)"
    by (auto simp: nondirnames_def)
  with Cons e show ?case
    by (cases m) (auto simp: nondirnames_def)
qed

lemma lookup_snoc_file:
  "lookup n (p @ [f]) = Some (File b t c) \<longleftrightarrow>
     (\<exists>t' es. lookup n p = Some (Dir t' es) \<and> map_of es f = Some (File b t c))"
proof (cases "lookup n p")
  case None
  then show ?thesis by (simp add: lookup_append)
next
  case (Some m)
  then show ?thesis
    by (cases m) (auto simp: lookup_append split: option.splits)
qed

lemma scan_directory_finds:
  assumes "well_formed (fs w)"
  shows "set (scan_directory w d exts (Some start)) =
           {os_path_relpath (d @ q @ [f]) start | q f b t c.
              lookup (fs w) (d @ q @ [f]) = Some (File b t c) \<and> has_ext exts f}"
proof -
  have wf: "distinct (map fst es)" if "lookup (fs w) p = Some (Dir t es)" for p t es
    using well_formed_lookup[OF assms that] by simp
  have "set (scan_directory w d exts (Some start)) =
          {os_path_relpath (root @ [f]) start | root dirs files f.
             (root, dirs, files) \<in> set (os_walk w d) \<and> f \<in> set files \<and> has_ext exts f}"
  proof (cases "os_path_exists w d")
    case True
    then show ?thesis
      by (auto simp: scan_directory_def has_ext_def os_path_join_def)
  next
    case False
    then show ?thesis
      by (simp add: scan_directory_def os_walk_def os_path_exists_def)
  qed
  also have "\<dots> = {os_path_relpath (d @ q @ [f]) start | q f b t c.
              lookup (fs w) (d @ q @ [f]) = Some (File b t c) \<and> has_ext exts f}"
    (is "?A = ?B")
  proof (rule set_eqI, rule iffI)
    fix e assume "e \<in> ?A"
    then obtain q t es f where e: "e = os_path_relpath ((d @ q) @ [f]) start"
      "lookup (fs w) (d @ q) = Some (Dir t es)" "f \<in> set (nondirnames es)" "has_ext exts f"
      unfolding os_walk_visits[OF assms] by auto
    from e(3) wf[OF e(2)] obtain b t' c where "map_of es f = Some (File b t' c)"
      by (auto simp: nondirnames_file)
    with e(2) have "lookup (fs w) ((d @ q) @ [f]) = Some (File b t' c)"
      using lookup_snoc_file[of "fs w" "d @ q" f b t' c] by blast
    with e show "e \<in> ?B"
      by (intro CollectI exI[of _ q] exI[of _ f] exI[of _ b] exI[of _ t'] exI[of _ c]) simp
  next
    fix e assume "e \<in> ?B"
    then obtain q f b t c where e: "e = os_path_relpath (d @ q @ [f]) start"
      "lookup (fs w) ((d @ q) @ [f]) = Some (File b t c)" "has_ext exts f" by auto
    from e(2) obtain t' es where d: "lookup (fs w) (d @ q) = Some (Dir t' es)" "map_of es f = Some (File b t c)"
      using lookup_snoc_file[of "fs w" "d @ q" f b t c] by blast
    with wf[OF d(1)] have "f \<in> set (nondirnames es)"
      by (auto simp: nondirnames_file)
    with d(1) have "(d @ q, dirnames es, nondirnames es) \<in> set (os_walk w d) \<and> f \<in> set (nondirnames es)"
      unfolding os_walk_visits[OF assms] by auto
    with e show "e \<in> ?A"
      by (intro CollectI exI[of _ "d @ q"] exI[of _ "dirnames es"] exI[of _ "nondirnames es"] exI[of _ f]) simp
  qed
  finally show ?thesis .
qed

lemma found_include_dirs_lookup:
  assumes "well_formed (fs w)"
  shows "found_include_dirs w pp jp =
     (if os_path_exists w (os_path_join pp (ascii ''src''))
      then {os_path_relpath (os_path_join pp (ascii ''src'')) jp} else {}) \<union>
     {os_path_relpath (os_path_join pp (ascii ''src'') @ q) jp | q t es f b a c.
        lookup (fs w) (os_path_join pp (ascii ''src'') @ q) = Some (Dir t es) \<and>
        map_of es f = Some (File b a c) \<and>
        (endswith f (ascii ''.vh'') \<or> endswith f (ascii ''.svh''))} \<union>
     (if os_path_exists w (os_path_join pp (ascii ''include''))
      then {os_path_relpath (os_path_join pp (ascii ''include'')) jp} else {})"
proof -
  let ?src = "os_path_join pp (ascii ''src'')"
  let ?Q = "\<lambda>f. endswith f (ascii ''.vh'') \<or> endswith f (ascii ''.svh'')"
  let ?W = "set (map (\<lambda>(root, dirs, files). os_path_relpath root jp)
                (filter (\<lambda>(root, dirs, files).
                    list_ex (\<lambda>f. list_ex (\<lambda>ext. endswith f ext) include_extensions) files)
                  (os_walk w ?src)))"
  let ?L = "{os_path_relpath (?src @ q) jp | q t es f b a c.
        lookup (fs w) (?src @ q) = Some (Dir t es) \<and> map_of es f = Some (File b a c) \<and> ?Q f}"
  have wf: "distinct (map fst es)" if "lookup (fs w) p = Some (Dir t es)" for p t es
    using well_formed_lookup[OF assms that] by simp
  have W: "?W = {os_path_relpath root jp | root dirs files f.
              (root, dirs, files) \<in> set (os_walk w ?src) \<and> f \<in> set files \<and> ?Q f}"
    by (auto simp: list_ex_iff include_extensions_def image_iff) force+
  have "?W = ?L"
  proof (rule set_eqI, rule iffI)
    fix e assume "e \<in> ?W"
    then obtain q t es f where e: "e = os_path_relpath (?src @ q) jp"
      "lookup (fs w) (?src @ q) = Some (Dir t es)" "f \<in> set (nondirnames es)" "?Q f"
      unfolding W os_walk_visits[OF assms] by auto
    from e(3) wf[OF e(2)] obtain b a c where "map_of es f = Some (File b a c)"
      by (auto simp: nondirnames_file)
    with e show "e \<in> ?L" by blast
  next
    fix e assume "e \<in> ?L"
    then obtain q t es f b a c where e: "e = os_path_relpath (?src @ q) jp"
      "lookup (fs w) (?src @ q) = Some (Dir t es)" "map_of es f = Some (File b a c)" "?Q f"
      by blast
    with wf[OF e(2)] have "f \<in> set (nondirnames es)"
      by (auto simp: nondirnames_file)
    with e(2) have "(?src @ q, dirnames es, nondirnames es) \<in> set (os_walk w ?src)"
      unfolding os_walk_visits[OF assms] by auto
    with e \<open>f \<in> set (nondirnames es)\<close> show "e \<in> ?W"
      unfolding W by blast
  qed
  then have WL: "?W = ?L" .
  show ?thesis
  proof (cases "os_path_exists w ?src")
    case True
    then show ?thesis
      unfolding found_include_dirs_def WL by (simp only: if_True insert_is_Un[symmetric]) 
  next
    case False
    then have "?L = {}"
      by (auto simp: os_path_exists_def lookup_append)
    with False show ?thesis
      unfolding found_include_dirs_def by (simp only: if_False Un_empty_left)
  qed
qed

subsection \<open>A run leaves the project as it found it\<close>

lemma scan_directory_fs:
  "fs w' = fs w \<Longrightarrow> scan_directory w' d exts rel = scan_directory w d exts rel"
  by (simp add: scan_directory_def os_path_exists_def os_walk_def)

lemma found_include_dirs_fs:
  "fs w' = fs w \<Longrightarrow> found_include_dirs w' pp jp = found_include_dirs w pp jp"
  by (simp add: found_include_dirs_def os_path_exists_def os_walk_def)

lemma os_path_isdir_fs: "fs w' = fs w \<Longrightarrow> os_path_isdir w' q = os_path_isdir w q"
  by (simp add: os_path_isdir_def)

lemma generate_filelist_leaves_project:
  assumes "succeeded (generate_filelist w pp jp)"
  shows "scan_directory (fst (generate_filelist w pp jp)) d verilog_extensions rel =
           scan_directory w d verilog_extensions rel"
    and "scan_directory (fst (generate_filelist w pp jp)) d include_extensions rel =
           scan_directory w d include_extensions rel"
    and "found_include_dirs (fst (generate_filelist w pp jp)) pp' jp' = found_include_dirs w pp' jp'"
    and "os_path_isdir (fst (generate_filelist w pp jp)) jp"
proof -
  let ?fl = "os_path_join jp (ascii ''filelist.f'')"
  let ?co = "os_path_join jp (ascii ''compile_options.txt'')"
  let ?md = "os_path_join jp (ascii ''project_metadata.json'')"
  from generate_filelist_succeeded[OF assms] obtain w1 w2 w3 where
    w1: "stored w ?fl (Text (concat (filelist_chunks w pp jp))) w1" and
    w2: "stored w1 ?co (Text (concat (compile_options_chunks (found_include_dirs w pp jp)))) w2" and
    w3: "stored w2 ?md (Json (metadata_of w pp jp (found_include_dirs w pp jp) (Some (clock w)))) w3" and
    r: "fs (fst (generate_filelist w pp jp)) = fs w3"
    by auto
  note n = output_paths(1-6)[of jp]
  show "scan_directory (fst (generate_filelist w pp jp)) d verilog_extensions rel =
           scan_directory w d verilog_extensions rel"
    using stored_scan[OF w1 n(1), of verilog_extensions d rel]
      stored_scan[OF w2 n(2), of verilog_extensions d rel]
      stored_scan[OF w3 n(3), of verilog_extensions d rel]
    by (simp add: scan_directory_fs[OF r] n output_names)
  show "scan_directory (fst (generate_filelist w pp jp)) d include_extensions rel =
           scan_directory w d include_extensions rel"
    using stored_scan[OF w1 n(1), of include_extensions d rel]
      stored_scan[OF w2 n(2), of include_extensions d rel]
      stored_scan[OF w3 n(3), of include_extensions d rel]
    by (simp add: scan_directory_fs[OF r] n output_names)
  have "found_include_dirs w1 pp' jp' = found_include_dirs w pp' jp'"
    using w1 n(1) by (rule stored_found_include_dirs) (simp_all add: output_paths output_names)
  moreover have "found_include_dirs w2 pp' jp' = found_include_dirs w1 pp' jp'"
    using w2 n(2) by (rule stored_found_include_dirs) (simp_all add: output_paths output_names)
  moreover have "found_include_dirs w3 pp' jp' = found_include_dirs w2 pp' jp'"
    using w3 n(3) by (rule stored_found_include_dirs) (simp_all add: output_paths output_names)
  ultimately show "found_include_dirs (fst (generate_filelist w pp jp)) pp' jp' = found_include_dirs w pp' jp'"
    by (simp add: found_include_dirs_fs[OF r])
  have "os_path_isdir w jp"
    using stored_parent[OF w1] by simp
  then show "os_path_isdir (fst (generate_filelist w pp jp)) jp"
    using stored_isdir[OF w1, of jp] stored_isdir[OF w2, of jp] stored_isdir[OF w3, of jp]
    by (simp add: os_path_isdir_fs[OF r] output_paths)
qed

section \<open>The claims\<close>

lemma example_succeeded:
  "succeeded (generate_filelist example_world [ascii ''work''] [ascii ''work''])"
  by code_simp

lemma has_ext_verilog:
  "has_ext [ascii ''.v'', ascii ''.sv''] f \<longleftrightarrow> endswith f (ascii ''.v'') \<or> endswith f (ascii ''.sv'')"
  by (simp add: has_ext_def)

text \<open>
  Claim C1, as amended. After a run that succeeds, \<open>filelist.f\<close> under the job path holds
  the files found under \<open>src\<close>, sorted lexicographically, then those found under \<open>tb\<close>,
  sorted likewise, each followed by a newline and nothing else; none of these entries
  has the suffix \<open>.vh\<close> or \<open>.svh\<close> of an include-family file. When no entry contains a
  newline character, the lines of the file are exactly these entries, one per line, and
  no line has the suffix of an include-family file. On a file system that lists no name
  twice, the files found under a directory are the regular files at any depth below it
  whose names end in \<open>.v\<close> or \<open>.sv\<close>.
\<close>

theorem filelist_lines:
  fixes w :: world and project_path job_path :: path
  defines "src_dir \<equiv> os_path_join project_path (ascii ''src'')"
    and "tb_dir \<equiv> os_path_join project_path (ascii ''tb'')"
  defines "src_files \<equiv> scan_directory w src_dir [ascii ''.v'', ascii ''.sv''] (Some job_path)"
    and "tb_files \<equiv> scan_directory w tb_dir [ascii ''.v'', ascii ''.sv''] (Some job_path)"
  assumes "succeeded (generate_filelist w project_path job_path)"
  shows "(case read_text (fst (generate_filelist w project_path job_path))
                 (os_path_join job_path (ascii ''filelist.f'')) of
            None \<Rightarrow> False
          | Some text \<Rightarrow>
              text = concat (map (\<lambda>entry. entry @ [newline]) (sort src_files @ sort tb_files)) \<and>
              (list_all (\<lambda>entry. newline \<notin> set entry) (src_files @ tb_files) \<longrightarrow>
                 file_lines text = sort src_files @ sort tb_files \<and>
                 list_all (\<lambda>line. \<not> endswith line (ascii ''.vh'') \<and> \<not> endswith line (ascii ''.svh''))
                   (file_lines text))) \<and>
         list_all (\<lambda>entry. \<not> endswith entry (ascii ''.vh'') \<and> \<not> endswith entry (ascii ''.svh''))
           (src_files @ tb_files) \<and>
         (well_formed (fs w) \<longrightarrow>
            set src_files =
              {os_path_relpath (src_dir @ q @ [f]) job_path | q f b t c.
                 lookup (fs w) (src_dir @ q @ [f]) = Some (File b t c) \<and>
                 (endswith f (ascii ''.v'') \<or> endswith f (ascii ''.sv''))} \<and>
            set tb_files =
              {os_path_relpath (tb_dir @ q @ [f]) job_path | q f b t c.
                 lookup (fs w) (tb_dir @ q @ [f]) = Some (File b t c) \<and>
                 (endswith f (ascii ''.v'') \<or> endswith f (ascii ''.sv''))})"
proof -
  have s: "found_src w project_path job_path = src_files" "found_tb w project_path job_path = tb_files"
    by (simp_all add: found_src_def found_tb_def src_files_def tb_files_def src_dir_def tb_dir_def
          verilog_extensions_def)
  have r: "read_text (fst (generate_filelist w project_path job_path))
             (os_path_join job_path (ascii ''filelist.f'')) =
           Some (concat (map (\<lambda>entry. entry @ [newline]) (sort src_files @ sort tb_files)))"
    using file_at_reads(5)[OF generate_filelist_files(1)[OF assms(5)]]
    by (simp add: concat_filelist_chunks s)
  have l: "file_lines (concat (map (\<lambda>entry. entry @ [newline]) (sort src_files @ sort tb_files))) =
             sort src_files @ sort tb_files"
    if "list_all (\<lambda>entry. newline \<notin> set entry) (src_files @ tb_files)"
  proof -
    from that have "list_all (\<lambda>entry. newline \<notin> set entry) (sort src_files @ sort tb_files)"
      by (simp add: list_all_iff)
    then show ?thesis
      by (rule file_lines_chunks)
  qed
  have i: "list_all (\<lambda>line. \<not> endswith line (ascii ''.vh'') \<and> \<not> endswith line (ascii ''.svh''))
             (sort src_files @ sort tb_files)"
    unfolding list_all_iff src_files_def tb_files_def
    using verilog_entry_not_include[unfolded verilog_extensions_def] by auto
  have j: "list_all (\<lambda>entry. \<not> endswith entry (ascii ''.vh'') \<and> \<not> endswith entry (ascii ''.svh''))
             (src_files @ tb_files)"
    unfolding list_all_iff src_files_def tb_files_def
    using verilog_entry_not_include[unfolded verilog_extensions_def] by auto
  have f: "set src_files =
              {os_path_relpath (src_dir @ q @ [f]) job_path | q f b t c.
                 lookup (fs w) (src_dir @ q @ [f]) = Some (File b t c) \<and>
                 (endswith f (ascii ''.v'') \<or> endswith f (ascii ''.sv''))}"
      "set tb_files =
              {os_path_relpath (tb_dir @ q @ [f]) job_path | q f b t c.
                 lookup (fs w) (tb_dir @ q @ [f]) = Some (File b t c) \<and>
                 (endswith f (ascii ''.v'') \<or> endswith f (ascii ''.sv''))}"
    if "well_formed (fs w)"
    unfolding src_files_def tb_files_def scan_directory_finds[OF that] has_ext_verilog by (rule refl)+
  have A: "case read_text (fst (generate_filelist w project_path job_path))
                 (os_path_join job_path (ascii ''filelist.f'')) of
            None \<Rightarrow> False
          | Some text \<Rightarrow>
              text = concat (map (\<lambda>entry. entry @ [newline]) (sort src_files @ sort tb_files)) \<and>
              (list_all (\<lambda>entry. newline \<notin> set entry) (src_files @ tb_files) \<longrightarrow>
                 file_lines text = sort src_files @ sort tb_files \<and>
                 list_all (\<lambda>line. \<not> endswith line (ascii ''.vh'') \<and> \<not> endswith line (ascii ''.svh''))
                   (file_lines text))"
    unfolding r option.case
    apply (intro conjI impI)
      apply (rule refl)
     apply (erule l)
    apply (simp only: l i)
    done
  show ?thesis
    apply (intro conjI)
      apply (rule A)
     apply (rule j)
    apply (intro impI conjI)
     apply (erule f(1))
    apply (erule f(2))
    done
qed

theorem filelist_lines_witness:
  "succeeded (generate_filelist example_world [ascii ''work''] [ascii ''work'']) \<and>
   list_all (\<lambda>entry. newline \<notin> set entry)
     (scan_directory example_world [ascii ''work'', ascii ''src''] [ascii ''.v'', ascii ''.sv'']
        (Some [ascii ''work'']) @
      scan_directory example_world [ascii ''work'', ascii ''tb''] [ascii ''.v'', ascii ''.sv'']
        (Some [ascii ''work''])) \<and>
   read_text (fst (generate_filelist example_world [ascii ''work''] [ascii ''work'']))
       [ascii ''work'', ascii ''filelist.f''] =
     Some (ascii ''src/a.v'' @ [newline] @ ascii ''src/b.sv'' @ [newline] @
           ascii ''tb/top_tb.sv'' @ [newline]) \<and>
   map_option file_lines
     (read_text (fst (generate_filelist example_world [ascii ''work''] [ascii ''work'']))
        [ascii ''work'', ascii ''filelist.f'']) =
     Some [ascii ''src/a.v'', ascii ''src/b.sv'', ascii ''tb/top_tb.sv'']"
proof -
  have h: "list_all (\<lambda>entry. newline \<notin> set entry)
     (scan_directory example_world (os_path_join [ascii ''work''] (ascii ''src''))
        [ascii ''.v'', ascii ''.sv''] (Some [ascii ''work'']) @
      scan_directory example_world (os_path_join [ascii ''work''] (ascii ''tb''))
        [ascii ''.v'', ascii ''.sv''] (Some [ascii ''work'']))"
    by code_simp
  have s: "sort (scan_directory example_world (os_path_join [ascii ''work''] (ascii ''src''))
                   [ascii ''.v'', ascii ''.sv''] (Some [ascii ''work''])) =
             [ascii ''src/a.v'', ascii ''src/b.sv'']"
    by code_simp
  have t: "sort (scan_directory example_world (os_path_join [ascii ''work''] (ascii ''tb''))
                   [ascii ''.v'', ascii ''.sv''] (Some [ascii ''work''])) =
             [ascii ''tb/top_tb.sv'']"
    by code_simp
  note f = filelist_lines[OF example_succeeded, unfolded s t]
  from f h example_succeeded show ?thesis
    by (auto simp: os_path_join_def split: option.splits)
qed

text \<open>
  Claim C1 as stated fails when a file name contains a newline character: the entry is
  written as it is, so the single source file \<open>src/x.vh<newline>.v\<close> gives a \<open>filelist.f\<close>
  whose lines are \<open>src/x.vh\<close>, with the suffix of an include-family file, and \<open>.v\<close>;
  the one entry is not on one line.
\<close>

theorem filelist_include_line_counterexample:
  "succeeded (generate_filelist example_include_line_world [ascii ''work''] [ascii ''work'']) \<and>
   scan_directory example_include_line_world [ascii ''work'', ascii ''src''] [ascii ''.v'', ascii ''.sv'']
       (Some [ascii ''work'']) =
     [ascii ''src/x.vh'' @ [newline] @ ascii ''.v''] \<and>
   map_option file_lines
     (read_text (fst (generate_filelist example_include_line_world [ascii ''work''] [ascii ''work'']))
        [ascii ''work'', ascii ''filelist.f'']) =
     Some [ascii ''src/x.vh'', ascii ''.v''] \<and>
   endswith (ascii ''src/x.vh'') (ascii ''.vh'')"
  by code_simp

text \<open>
  Claim C2, as amended. After a run that succeeds on a file system that lists no name
  twice, \<open>compile_options.txt\<close> holds \<open>+incdir+<dir>\<close> followed by a newline for each
  element of the include-directory set, in lexicographic order; when no element
  contains a newline character, its lines are these, one per element, sorted and
  without duplicates. The set, read on the project as the run finds it and with every
  path taken relative to the job path, holds \<open>src\<close> when that path exists (be it a
  directory or not), every directory at or below \<open>src\<close> that directly contains a regular
  file with suffix \<open>.vh\<close> or \<open>.svh\<close>, and \<open>include\<close> when that path exists.
\<close>

theorem compile_options_lines:
  fixes w :: world and project_path job_path :: path
  defines "include_dirs \<equiv>
     (if os_path_exists w (os_path_join project_path (ascii ''src''))
      then {os_path_relpath (os_path_join project_path (ascii ''src'')) job_path} else {}) \<union>
     {os_path_relpath (os_path_join project_path (ascii ''src'') @ q) job_path | q t es f b a c.
        lookup (fs w) (os_path_join project_path (ascii ''src'') @ q) = Some (Dir t es) \<and>
        map_of es f = Some (File b a c) \<and>
        (endswith f (ascii ''.vh'') \<or> endswith f (ascii ''.svh''))} \<union>
     (if os_path_exists w (os_path_join project_path (ascii ''include''))
      then {os_path_relpath (os_path_join project_path (ascii ''include'')) job_path} else {})"
  assumes "succeeded (generate_filelist w project_path job_path)"
    and "well_formed (fs w)"
  shows "case read_text (fst (generate_filelist w project_path job_path))
                (os_path_join job_path (ascii ''compile_options.txt'')) of
           None \<Rightarrow> False
         | Some text \<Rightarrow>
             text = concat (map (\<lambda>dir. ascii ''+incdir+'' @ dir @ [newline])
                              (sorted_list_of_set include_dirs)) \<and>
             (newline \<notin> \<Union> (set ` include_dirs) \<longrightarrow>
                set (file_lines text) = (\<lambda>dir. ascii ''+incdir+'' @ dir) ` include_dirs \<and>
                sorted (file_lines text) \<and>
                distinct (file_lines text))"
proof -
  have eq: "found_include_dirs w project_path job_path = include_dirs"
    unfolding include_dirs_def by (rule found_include_dirs_lookup[OF assms(3)])
  have fin: "finite include_dirs"
    using finite_found_include_dirs[of w project_path job_path] by (simp add: eq)
  let ?ds = "sorted_list_of_set include_dirs"
  let ?p = "ascii ''+incdir+''"
  have r: "read_text (fst (generate_filelist w project_path job_path))
             (os_path_join job_path (ascii ''compile_options.txt'')) =
           Some (concat (map (\<lambda>dir. ?p @ dir @ [newline]) ?ds))"
    using file_at_reads(5)[OF generate_filelist_files(2)[OF assms(2)]]
    by (simp add: eq compile_options_chunks_def)
  have c: "concat (map (\<lambda>dir. ?p @ dir @ [newline]) ?ds) =
           concat (map (\<lambda>e. e @ [newline]) (map ((@) ?p) ?ds))"
    by (simp add: comp_def)
  have l: "file_lines (concat (map (\<lambda>dir. ?p @ dir @ [newline]) ?ds)) = map ((@) ?p) ?ds"
    if "newline \<notin> \<Union> (set ` include_dirs)"
  proof -
    from that fin have "list_all (\<lambda>e. newline \<notin> set e) (map ((@) ?p) ?ds)"
      by (auto simp: list_all_iff ascii_def newline_def)
    then show ?thesis
      unfolding c by (rule file_lines_chunks)
  qed
  have 1: "set (map ((@) ?p) ?ds) = (\<lambda>dir. ?p @ dir) ` include_dirs"
    using fin by simp
  have 2: "sorted (map ((@) ?p) ?ds)"
    by (simp add: sorted_prefix)
  have 3: "distinct (map ((@) ?p) ?ds)"
    by (simp add: distinct_map inj_on_def)
  show ?thesis
    unfolding r option.case
    apply (intro conjI impI)
       apply (rule refl)
      apply (drule l, simp only: 1)
     apply (drule l, simp only: 2)
    apply (drule l, simp only: 3)
    done
qed

lemma example_tree_succeeded:
  "succeeded (generate_filelist example_tree_world [ascii ''work''] [ascii ''jobs'', ascii ''j1''])"
  by code_simp

theorem compile_options_lines_witness:
  "succeeded (generate_filelist example_tree_world [ascii ''work''] [ascii ''jobs'', ascii ''j1'']) \<and>
   well_formed (fs example_tree_world) \<and>
   read_text (fst (generate_filelist example_tree_world [ascii ''work''] [ascii ''jobs'', ascii ''j1'']))
       [ascii ''jobs'', ascii ''j1'', ascii ''compile_options.txt''] =
     Some (ascii ''+incdir+../../work/include'' @ [newline] @
           ascii ''+incdir+../../work/src'' @ [newline] @
           ascii ''+incdir+../../work/src/pkg'' @ [newline] @
           ascii ''+incdir+../../work/src/pkg/sub'' @ [newline]) \<and>
   map_option (\<lambda>text. (set (file_lines text), sorted (file_lines text), distinct (file_lines text)))
     (read_text (fst (generate_filelist example_tree_world [ascii ''work''] [ascii ''jobs'', ascii ''j1'']))
        [ascii ''jobs'', ascii ''j1'', ascii ''compile_options.txt'']) =
     Some ({ascii ''+incdir+../../work/include'', ascii ''+incdir+../../work/src'',
            ascii ''+incdir+../../work/src/pkg'', ascii ''+incdir+../../work/src/pkg/sub''}, True, True) \<and>
   map_option file_lines
     (read_text (fst (generate_filelist example_tree_world [ascii ''work''] [ascii ''jobs'', ascii ''j1'']))
        [ascii ''jobs'', ascii ''j1'', ascii ''compile_options.txt'']) =
     Some [ascii ''+incdir+../../work/include'', ascii ''+incdir+../../work/src'',
           ascii ''+incdir+../../work/src/pkg'', ascii ''+incdir+../../work/src/pkg/sub'']"
proof -
  have wf: "well_formed (fs example_tree_world)"
    by code_simp
  note S = found_include_dirs_lookup[OF wf, of "[ascii ''work'']" "[ascii ''jobs'', ascii ''j1'']", symmetric]
  have nl: "newline \<notin> \<Union> (set ` found_include_dirs example_tree_world [ascii ''work''] [ascii ''jobs'', ascii ''j1''])"
    by code_simp
  have ds: "sorted_list_of_set (found_include_dirs example_tree_world [ascii ''work''] [ascii ''jobs'', ascii ''j1'']) =
      [ascii ''../../work/include'', ascii ''../../work/src'', ascii ''../../work/src/pkg'',
       ascii ''../../work/src/pkg/sub'']"
    by code_simp
  have im: "(\<lambda>dir. ascii ''+incdir+'' @ dir) `
              found_include_dirs example_tree_world [ascii ''work''] [ascii ''jobs'', ascii ''j1''] =
            {ascii ''+incdir+../../work/include'', ascii ''+incdir+../../work/src'',
             ascii ''+incdir+../../work/src/pkg'', ascii ''+incdir+../../work/src/pkg/sub''}"
    by code_simp
  note f = compile_options_lines[OF example_tree_succeeded wf, unfolded S ds im]
  have fl: "file_lines (ascii ''+incdir+../../work/include'' @ [newline] @
           ascii ''+incdir+../../work/src'' @ [newline] @
           ascii ''+incdir+../../work/src/pkg'' @ [newline] @
           ascii ''+incdir+../../work/src/pkg/sub'' @ [newline]) =
          [ascii ''+incdir+../../work/include'', ascii ''+incdir+../../work/src'',
           ascii ''+incdir+../../work/src/pkg'', ascii ''+incdir+../../work/src/pkg/sub'']"
    by code_simp
  have c: "concat (map (\<lambda>dir. ascii ''+incdir+'' @ dir @ [newline])
             [ascii ''../../work/include'', ascii ''../../work/src'', ascii ''../../work/src/pkg'',
              ascii ''../../work/src/pkg/sub'']) =
           ascii ''+incdir+../../work/include'' @ [newline] @
           ascii ''+incdir+../../work/src'' @ [newline] @
           ascii ''+incdir+../../work/src/pkg'' @ [newline] @
           ascii ''+incdir+../../work/src/pkg/sub'' @ [newline]"
    by code_simp
  note g = f[unfolded c]
  let ?r = "read_text (fst (generate_filelist example_tree_world [ascii ''work''] [ascii ''jobs'', ascii ''j1'']))
       (os_path_join [ascii ''jobs'', ascii ''j1''] (ascii ''compile_options.txt''))"
  let ?t = "ascii ''+incdir+../../work/include'' @ [newline] @
           ascii ''+incdir+../../work/src'' @ [newline] @
           ascii ''+incdir+../../work/src/pkg'' @ [newline] @
           ascii ''+incdir+../../work/src/pkg/sub'' @ [newline]"
  from g have t: "?r = Some ?t"
    by (cases ?r) simp_all
  from g nl have p: "set (file_lines ?t) =
            {ascii ''+incdir+../../work/include'', ascii ''+incdir+../../work/src'',
             ascii ''+incdir+../../work/src/pkg'', ascii ''+incdir+../../work/src/pkg/sub''} \<and>
          sorted (file_lines ?t) \<and> distinct (file_lines ?t)"
    unfolding t option.case by (elim conjE impE) (assumption, intro conjI)
  have j: "os_path_join [ascii ''jobs'', ascii ''j1''] (ascii ''compile_options.txt'') =
           [ascii ''jobs'', ascii ''j1'', ascii ''compile_options.txt'']"
    by (simp add: os_path_join_def)
  show ?thesis
    using example_tree_succeeded wf t[unfolded j] p fl
    by (simp only: option.map prod.inject simp_thms)
qed

text \<open>
  Claim C2 as stated fails in two ways. When \<open>src\<close> is a regular file there is no
  directory \<open>src\<close>, yet \<open>compile_options.txt\<close> has the line \<open>+incdir+src\<close>. And when a
  directory below \<open>src\<close> has a newline character in its name, here
  \<open>src/a<newline>+incdir+src\<close>, the two elements of the set give three lines, which are
  neither sorted nor free of duplicates.
\<close>

theorem compile_options_counterexample:
  "succeeded (generate_filelist example_src_file_world [ascii ''work''] [ascii ''work'']) \<and>
   \<not> os_path_isdir example_src_file_world [ascii ''work'', ascii ''src''] \<and>
   \<not> os_path_exists example_src_file_world [ascii ''work'', ascii ''include''] \<and>
   map_option file_lines
     (read_text (fst (generate_filelist example_src_file_world [ascii ''work''] [ascii ''work'']))
        [ascii ''work'', ascii ''compile_options.txt'']) =
     Some [ascii ''+incdir+src''] \<and>
   succeeded (generate_filelist example_newline_dir_world [ascii ''work''] [ascii ''work'']) \<and>
   map_option file_lines
     (read_text (fst (generate_filelist example_newline_dir_world [ascii ''work''] [ascii ''work'']))
        [ascii ''work'', ascii ''compile_options.txt'']) =
     Some [ascii ''+incdir+src'', ascii ''+incdir+src/a'', ascii ''+incdir+src''] \<and>
   \<not> sorted [ascii ''+incdir+src'', ascii ''+incdir+src/a'', ascii ''+incdir+src''] \<and>
   \<not> distinct [ascii ''+incdir+src'', ascii ''+incdir+src/a'', ascii ''+incdir+src'']"
  by code_simp

text \<open>
  Claim C3. In the metadata that a successful run writes, \<open>total_files\<close> is the length of
  \<open>src_files\<close> plus the length of \<open>tb_files\<close>, which are the verilog-family files found
  under \<open>src\<close> and \<open>tb\<close>; the include files are listed in a field of their own and do
  not enter the count.
\<close>

theorem total_files_counts_sources:
  fixes w :: world and project_path job_path :: path
  assumes "succeeded (generate_filelist w project_path job_path)"
  shows "case read_json (fst (generate_filelist w project_path job_path))
                (os_path_join job_path (ascii ''project_metadata.json'')) of
           None \<Rightarrow> False
         | Some m \<Rightarrow>
             md_total_files m = length (md_src_files m) + length (md_tb_files m) \<and>
             md_src_files m =
               scan_directory w (os_path_join project_path (ascii ''src'')) [ascii ''.v'', ascii ''.sv'']
                 (Some job_path) \<and>
             md_tb_files m =
               scan_directory w (os_path_join project_path (ascii ''tb'')) [ascii ''.v'', ascii ''.sv'']
                 (Some job_path) \<and>
             md_include_files m =
               scan_directory w (os_path_join project_path (ascii ''src'')) [ascii ''.vh'', ascii ''.svh'']
                 (Some job_path) @
               scan_directory w (os_path_join project_path (ascii ''include'')) [ascii ''.vh'', ascii ''.svh'']
                 (Some job_path)"
  using file_at_reads(6)[OF generate_filelist_files(3)[OF assms]]
  by (simp add: metadata_of_def found_src_def found_tb_def found_includes_def
      verilog_extensions_def include_extensions_def)

theorem total_files_counts_sources_witness:
  "succeeded (generate_filelist example_world [ascii ''work''] [ascii ''work'']) \<and>
   map_option (\<lambda>m. (md_total_files m, length (md_src_files m), length (md_tb_files m), length (md_include_files m)))
     (read_json (fst (generate_filelist example_world [ascii ''work''] [ascii ''work'']))
        [ascii ''work'', ascii ''project_metadata.json'']) =
   Some (3, 2, 1, 2)"
proof -
  have s: "length (scan_directory example_world [ascii ''work'', ascii ''src''] [ascii ''.v'', ascii ''.sv'']
                     (Some [ascii ''work''])) = 2"
      "length (scan_directory example_world [ascii ''work'', ascii ''tb''] [ascii ''.v'', ascii ''.sv'']
                 (Some [ascii ''work''])) = 1"
      "length (scan_directory example_world [ascii ''work'', ascii ''src''] [ascii ''.vh'', ascii ''.svh'']
                 (Some [ascii ''work''])) = 1"
      "length (scan_directory example_world [ascii ''work'', ascii ''include''] [ascii ''.vh'', ascii ''.svh'']
                 (Some [ascii ''work''])) = 1"
    by code_simp+
  from total_files_counts_sources[OF example_succeeded] example_succeeded show ?thesis
    by (auto simp: os_path_join_def s split: option.splits)
qed

text \<open>
  Claim C4. After a run that succeeds, a second run on the world the first one left
  behind, at any later time and with the same project and job paths, succeeds too and
  leaves \<open>filelist.f\<close> and \<open>compile_options.txt\<close> with the same contents, byte for byte.
\<close>

theorem rerun_is_identical:
  fixes w :: world and project_path job_path :: path and later :: timestamp
  defines "w1 \<equiv> fst (generate_filelist w project_path job_path)"
  defines "second \<equiv> generate_filelist (w1\<lparr>clock := later\<rparr>) project_path job_path"
  assumes "succeeded (generate_filelist w project_path job_path)"
  shows "succeeded second \<and>
         read_text w1 (os_path_join job_path (ascii ''filelist.f'')) \<noteq> None \<and>
         read_text w1 (os_path_join job_path (ascii ''compile_options.txt'')) \<noteq> None \<and>
         read_text (fst second) (os_path_join job_path (ascii ''filelist.f'')) =
           read_text w1 (os_path_join job_path (ascii ''filelist.f'')) \<and>
         read_text (fst second) (os_path_join job_path (ascii ''compile_options.txt'')) =
           read_text w1 (os_path_join job_path (ascii ''compile_options.txt''))"
proof -
  let ?w1' = "w1\<lparr>clock := later\<rparr>"
  have f: "fs ?w1' = fs w1" by simp
  note a1 = generate_filelist_files[OF assms(3), folded w1_def]
  note p1 = generate_filelist_leaves_project[OF assms(3), folded w1_def]
  from generate_filelist_succeeded[OF assms(3)] have
    e: "list_all encodable (filelist_chunks w project_path job_path)"
       "list_all encodable (compile_options_chunks (found_include_dirs w project_path job_path))"
    by auto
  have c: "filelist_chunks ?w1' project_path job_path = filelist_chunks w project_path job_path"
    by (simp add: filelist_chunks_def found_src_def found_tb_def scan_directory_fs[OF f] p1)
  have d: "found_include_dirs ?w1' project_path job_path = found_include_dirs w project_path job_path"
    by (simp add: found_include_dirs_fs[OF f] p1)
  have s2: "succeeded second"
    unfolding second_def
  proof (rule generate_filelist_succeeds)
    show "os_path_isdir ?w1' job_path"
      using p1(4) by (simp add: os_path_isdir_def)
    show "\<not> os_path_isdir ?w1' (os_path_join job_path (ascii ''filelist.f''))"
      using file_at_reads(4)[OF a1(1)] by (simp add: os_path_isdir_def)
    show "\<not> os_path_isdir ?w1' (os_path_join job_path (ascii ''compile_options.txt''))"
      using file_at_reads(4)[OF a1(2)] by (simp add: os_path_isdir_def)
    show "\<not> os_path_isdir ?w1' (os_path_join job_path (ascii ''project_metadata.json''))"
      using file_at_reads(4)[OF a1(3)] by (simp add: os_path_isdir_def)
    show "list_all encodable (filelist_chunks ?w1' project_path job_path)"
      unfolding c by (rule e(1))
    show "list_all encodable (compile_options_chunks (found_include_dirs ?w1' project_path job_path))"
      unfolding d by (rule e(2))
  qed
  note a2 = generate_filelist_files[OF s2[unfolded second_def], folded second_def]
  show ?thesis
    using s2 file_at_reads(5)[OF a1(1)] file_at_reads(5)[OF a1(2)]
      file_at_reads(5)[OF a2(1)] file_at_reads(5)[OF a2(2)]
    by (simp add: c d)
qed

theorem rerun_is_identical_witness:
  "succeeded (generate_filelist example_world [ascii ''work''] [ascii ''work'']) \<and>
   succeeded (generate_filelist ((fst (generate_filelist example_world [ascii ''work''] [ascii ''work'']))\<lparr>clock := 200\<rparr>)
                [ascii ''work''] [ascii ''work'']) \<and>
   read_text (fst (generate_filelist ((fst (generate_filelist example_world [ascii ''work''] [ascii ''work'']))\<lparr>clock := 200\<rparr>)
                [ascii ''work''] [ascii ''work''])) [ascii ''work'', ascii ''filelist.f''] =
     read_text (fst (generate_filelist example_world [ascii ''work''] [ascii ''work'']))
       [ascii ''work'', ascii ''filelist.f''] \<and>
   read_text (fst (generate_filelist ((fst (generate_filelist example_world [ascii ''work''] [ascii ''work'']))\<lparr>clock := 200\<rparr>)
                [ascii ''work''] [ascii ''work''])) [ascii ''work'', ascii ''compile_options.txt''] =
     read_text (fst (generate_filelist example_world [ascii ''work''] [ascii ''work'']))
       [ascii ''work'', ascii ''compile_options.txt'']"
  using rerun_is_identical[OF example_succeeded, of 200] example_succeeded
  by (simp add: os_path_join_def)




text \<open>
  Claim C6. When the project path does not exist, \<open>main\<close> prints the error line and
  exits with status 1, and the file system is left as it was: no output file and no job
  directory is created.
\<close>

theorem missing_project_path:
  assumes "\<not> os_path_exists w project_path"
  shows "main w [script, project_path, job_path] =
           (w\<lparr>stdout := stdout w @ [ProjectPathMissing project_path]\<rparr>, Exit 1) \<and>
         fs (fst (main w [script, project_path, job_path])) = fs w \<and>
         exit_status (snd (main w [script, project_path, job_path])) = 1"
  using assms by (simp add: main_def print_def)

theorem missing_project_path_witness:
  "\<not> os_path_exists example_no_tb_world [ascii ''nowhere''] \<and>
   \<not> os_path_exists example_no_tb_world [ascii ''jobs'', ascii ''j2''] \<and>
   main example_no_tb_world [[ascii ''generate_filelist.py''], [ascii ''nowhere''], [ascii ''jobs'', ascii ''j2'']] =
     (example_no_tb_world\<lparr>stdout := [ProjectPathMissing [ascii ''nowhere'']]\<rparr>, Exit 1) \<and>
   \<not> os_path_exists
       (fst (main example_no_tb_world
               [[ascii ''generate_filelist.py''], [ascii ''nowhere''], [ascii ''jobs'', ascii ''j2'']]))
       [ascii ''jobs'', ascii ''j2'']"
proof -
  have h: "\<not> os_path_exists example_no_tb_world [ascii ''nowhere'']"
    by code_simp
  have j: "\<not> os_path_exists example_no_tb_world [ascii ''jobs'', ascii ''j2'']"
    by code_simp
  have s: "stdout example_no_tb_world = []"
    by (simp add: example_no_tb_world_def)
  from missing_project_path[OF h, of "[ascii ''generate_filelist.py'']" "[ascii ''jobs'', ascii ''j2'']"] h j
  show ?thesis
    by (simp add: s os_path_exists_def)
qed

text \<open>
  Claim C7. When the number of arguments after the script's name is not two, \<open>main\<close>
  prints the usage text to standard output, which is the three lines below, and exits
  with status 1; the file system is left as it was.
\<close>

theorem wrong_argument_count:
  assumes "length args \<noteq> 2"
  shows "main w (script # args) =
           (w\<lparr>stdout := stdout w @
                [Usage ''Usage: generate_filelist.py <project_path> <job_path>'',
                 Usage ''  project_path: Path to the project directory containing src/, tb/, etc.'',
                 Usage ''  job_path: Path to the job run directory where filelist.f will be created'']\<rparr>,
            Exit 1) \<and>
         fs (fst (main w (script # args))) = fs w \<and>
         exit_status (snd (main w (script # args))) = 1"
  using assms by (simp add: main_def print_def)

theorem wrong_argument_count_witness:
  "length ([] :: path list) \<noteq> 2 \<and>
   length [[ascii ''work'']] \<noteq> 2 \<and>
   length [[ascii ''work''], [ascii ''jobs'', ascii ''j1''], [ascii ''extra'']] \<noteq> 2 \<and>
   main example_world [[ascii ''generate_filelist.py'']] =
     (example_world\<lparr>stdout :=
        [Usage ''Usage: generate_filelist.py <project_path> <job_path>'',
         Usage ''  project_path: Path to the project directory containing src/, tb/, etc.'',
         Usage ''  job_path: Path to the job run directory where filelist.f will be created'']\<rparr>,
      Exit 1) \<and>
   main example_world [[ascii ''generate_filelist.py''], [ascii ''work'']] =
     (example_world\<lparr>stdout :=
        [Usage ''Usage: generate_filelist.py <project_path> <job_path>'',
         Usage ''  project_path: Path to the project directory containing src/, tb/, etc.'',
         Usage ''  job_path: Path to the job run directory where filelist.f will be created'']\<rparr>,
      Exit 1) \<and>
   main example_world
       [[ascii ''generate_filelist.py''], [ascii ''work''], [ascii ''jobs'', ascii ''j1''], [ascii ''extra'']] =
     (example_world\<lparr>stdout :=
        [Usage ''Usage: generate_filelist.py <project_path> <job_path>'',
         Usage ''  project_path: Path to the project directory containing src/, tb/, etc.'',
         Usage ''  job_path: Path to the job run directory where filelist.f will be created'']\<rparr>,
      Exit 1)"
  using wrong_argument_count[of "[]" example_world "[ascii ''generate_filelist.py'']"]
    wrong_argument_count[of "[[ascii ''work'']]" example_world "[ascii ''generate_filelist.py'']"]
    wrong_argument_count[of "[[ascii ''work''], [ascii ''jobs'', ascii ''j1''], [ascii ''extra'']]" example_world
      "[ascii ''generate_filelist.py'']"]
  by (simp add: example_world_def)




text \<open>
  Claim C9. After a run that completes without raising, \<open>filelist.f\<close> exists and
  \<open>generated_at\<close> is not null: it is the time at which the run wrote the file.
\<close>

theorem generated_at_not_null:
  fixes w :: world and project_path job_path :: path
  assumes "succeeded (generate_filelist w project_path job_path)"
  shows "os_path_exists (fst (generate_filelist w project_path job_path))
           (os_path_join job_path (ascii ''filelist.f'')) \<and>
         (case read_json (fst (generate_filelist w project_path job_path))
                 (os_path_join job_path (ascii ''project_metadata.json'')) of
            None \<Rightarrow> False
          | Some m \<Rightarrow> md_generated_at m \<noteq> None \<and> md_generated_at m = Some (clock w))"
  using file_at_reads(3)[OF generate_filelist_files(1)[OF assms]]
    file_at_reads(6)[OF generate_filelist_files(3)[OF assms]]
  by (simp add: metadata_of_def)

theorem generated_at_not_null_witness:
  "succeeded (generate_filelist example_world [ascii ''work''] [ascii ''work'']) \<and>
   os_path_exists (fst (generate_filelist example_world [ascii ''work''] [ascii ''work'']))
     [ascii ''work'', ascii ''filelist.f''] \<and>
   map_option md_generated_at
     (read_json (fst (generate_filelist example_world [ascii ''work''] [ascii ''work'']))
        [ascii ''work'', ascii ''project_metadata.json'']) \<noteq>
   Some None"
  using generated_at_not_null[OF example_succeeded] example_succeeded
  by (auto simp: os_path_join_def split: option.splits)

text \<open>
  Claim C10, as amended. After a run that succeeds and in which no entry of \<open>src_files\<close>
  or \<open>tb_files\<close> contains a newline character, the number of lines of \<open>filelist.f\<close> is
  the \<open>total_files\<close> of the metadata, and the set of its lines is the union of
  \<open>src_files\<close> and \<open>tb_files\<close>.
\<close>

theorem filelist_lines_match_metadata:
  fixes w :: world and project_path job_path :: path
  assumes "succeeded (generate_filelist w project_path job_path)"
    and "list_all (\<lambda>entry. newline \<notin> set entry)
           (scan_directory w (os_path_join project_path (ascii ''src'')) [ascii ''.v'', ascii ''.sv'']
              (Some job_path) @
            scan_directory w (os_path_join project_path (ascii ''tb'')) [ascii ''.v'', ascii ''.sv'']
              (Some job_path))"
  shows "case (read_text (fst (generate_filelist w project_path job_path))
                 (os_path_join job_path (ascii ''filelist.f'')),
               read_json (fst (generate_filelist w project_path job_path))
                 (os_path_join job_path (ascii ''project_metadata.json''))) of
           (Some text, Some m) \<Rightarrow>
             length (file_lines text) = md_total_files m \<and>
             set (file_lines text) = set (md_src_files m) \<union> set (md_tb_files m)
         | _ \<Rightarrow> False"
proof -
  let ?src = "found_src w project_path job_path"
  let ?tb = "found_tb w project_path job_path"
  have "list_all (\<lambda>entry. newline \<notin> set entry) (sort ?src @ sort ?tb)"
    using assms(2) by (simp add: list_all_iff found_src_def found_tb_def verilog_extensions_def)
  then have "file_lines (concat (filelist_chunks w project_path job_path)) = sort ?src @ sort ?tb"
    unfolding concat_filelist_chunks by (rule file_lines_chunks)
  then show ?thesis
    using file_at_reads(5)[OF generate_filelist_files(1)[OF assms(1)]]
      file_at_reads(6)[OF generate_filelist_files(3)[OF assms(1)]]
    by (simp add: metadata_of_def)
qed

theorem filelist_lines_match_metadata_witness:
  "succeeded (generate_filelist example_world [ascii ''work''] [ascii ''work'']) \<and>
   list_all (\<lambda>entry. newline \<notin> set entry)
     (scan_directory example_world [ascii ''work'', ascii ''src''] [ascii ''.v'', ascii ''.sv'']
        (Some [ascii ''work'']) @
      scan_directory example_world [ascii ''work'', ascii ''tb''] [ascii ''.v'', ascii ''.sv'']
        (Some [ascii ''work''])) \<and>
   (case (read_text (fst (generate_filelist example_world [ascii ''work''] [ascii ''work'']))
            [ascii ''work'', ascii ''filelist.f''],
          read_json (fst (generate_filelist example_world [ascii ''work''] [ascii ''work'']))
            [ascii ''work'', ascii ''project_metadata.json'']) of
      (Some text, Some m) \<Rightarrow>
        length (file_lines text) = md_total_files m \<and>
        set (file_lines text) = set (md_src_files m) \<union> set (md_tb_files m)
    | _ \<Rightarrow> False)"
proof -
  have h: "list_all (\<lambda>entry. newline \<notin> set entry)
     (scan_directory example_world (os_path_join [ascii ''work''] (ascii ''src''))
        [ascii ''.v'', ascii ''.sv''] (Some [ascii ''work'']) @
      scan_directory example_world (os_path_join [ascii ''work''] (ascii ''tb''))
        [ascii ''.v'', ascii ''.sv''] (Some [ascii ''work'']))"
    by code_simp
  from filelist_lines_match_metadata[OF example_succeeded h] example_succeeded h show ?thesis
    by (simp add: os_path_join_def)
qed

text \<open>
  Claim C10 as stated fails when a file name contains a newline character: the entry is
  written as it is, so the single source file \<open>src/a<newline>.v\<close> gives a \<open>filelist.f\<close> of
  two lines, \<open>src/a\<close> and \<open>.v\<close>, while \<open>total_files\<close> is 1 and \<open>src_files\<close> holds the one
  name.
\<close>

theorem filelist_lines_newline_counterexample:
  "succeeded (generate_filelist example_newline_world [ascii ''work''] [ascii ''work'']) \<and>
   map_option file_lines
     (read_text (fst (generate_filelist example_newline_world [ascii ''work''] [ascii ''work'']))
        [ascii ''work'', ascii ''filelist.f'']) =
     Some [ascii ''src/a'', ascii ''.v''] \<and>
   map_option (\<lambda>m. (md_total_files m, md_src_files m, md_tb_files m))
     (read_json (fst (generate_filelist example_newline_world [ascii ''work''] [ascii ''work'']))
        [ascii ''work'', ascii ''project_metadata.json'']) =
     Some (1, [ascii ''src/a'' @ [newline] @ ascii ''.v''], []) \<and>
   map_option (\<lambda>text. length (file_lines text))
     (read_text (fst (generate_filelist example_newline_world [ascii ''work''] [ascii ''work'']))
        [ascii ''work'', ascii ''filelist.f'']) \<noteq>
   map_option md_total_files
     (read_json (fst (generate_filelist example_newline_world [ascii ''work''] [ascii ''work'']))
        [ascii ''work'', ascii ''project_metadata.json''])"
  by code_simp

end
